theory Spec2Isabelle
  imports Main "HOL-Library.AList" "HOL-Library.Sublist"
begin

section \<open>Legacy model reference conversion (convert\_legacy.py)\<close>

text \<open>
  The converter reads a legacy JSON database (model key to record), normalizes each record,
  reconciles showcase folders, and writes the converted database after a final schema check.
  Python dictionaries are association lists in insertion order: \<^const>\<open>map_of\<close> reads a
  key, \<^const>\<open>AList.update\<close> assigns one (in place when present, appended when new).
  Strings are \<^typ>\<open>string\<close>; the model reads them as ASCII text, so \<^const>\<open>length\<close>
  is Python's \<^verbatim>\<open>len\<close>.
\<close>

subsection \<open>Exceptions and strings\<close>

datatype exn =
    ValidationError string
  | KeyError string
  | TypeError string
  | ValueError string

text \<open>Python's \<^verbatim>\<open>needle in haystack\<close> on strings.\<close>

fun str_contains :: "string \<Rightarrow> string \<Rightarrow> bool" where
  "str_contains needle [] = (needle = [])"
| "str_contains needle (c # cs) = (prefix needle (c # cs) \<or> str_contains needle cs)"

subsection \<open>Records of the legacy schema\<close>

text \<open>
  The fields are the attributes the converter reads and writes. An attribute the converter
  compares with \<^verbatim>\<open>None\<close> is an option.
\<close>

record Legacy_Config_FileRecord =
  f_path :: "string option"
  f_sha256sum :: "string option"

record Legacy_Config_DownloadRecord =
  d_file_name :: "string option"
  d_file_path :: "string option"
  d_file_url :: "string option"
  d_sha256sum :: "string option"
  d_known_slow_download :: "bool option"

text \<open>
  A value of a config list is one of the two record classes; the \<^verbatim>\<open>isinstance\<close> tests
  of the converter are case distinctions on this type.
\<close>

datatype config_item =
    FileItem Legacy_Config_FileRecord
  | DownloadItem Legacy_Config_DownloadRecord

type_synonym config_entries = "(string \<times> config_item list) list"

record Legacy_StableDiffusion_ModelRecord =
  r_name :: string
  r_type :: string
  r_baseline :: string
  r_style :: string
  r_description :: "string option"
  r_available :: bool
  r_download_all :: bool
  r_showcases :: "string list option"
  r_tags :: "string list option"
  r_config :: "config_entries option"

text \<open>
  A record of the legacy JSON file as \<^verbatim>\<open>json.load\<close> returns it. The type \<open>'j\<close> is a
  raw descriptor (a JSON object) of a config list; \<open>raw_config = None\<close> is a record with no
  \<^verbatim>\<open>"config"\<close> key.
\<close>

record 'j raw_model_record =
  raw_name :: string
  raw_type :: string
  raw_baseline :: string
  raw_style :: string
  raw_description :: "string option"
  raw_available :: bool
  raw_download_all :: bool
  raw_showcases :: "string list option"
  raw_tags :: "string list option"
  raw_config :: "(string \<times> 'j list) list option"

text \<open>
  The pydantic classes of \<^verbatim>\<open>legacy_model_database_records\<close> and the target schema of
  \<^verbatim>\<open>model_database_records\<close> are not among the sources; their validation is a
  parameter. A parser returns \<open>Inl msg\<close> where the class raises
  \<^verbatim>\<open>ValidationError\<close> with text \<open>msg\<close>.
\<close>

record 'j schema =
  parse_file_record :: "'j \<Rightarrow> string + Legacy_Config_FileRecord"
  parse_download_record :: "'j \<Rightarrow> string + Legacy_Config_DownloadRecord"
  record_schema_error :: "'j raw_model_record \<Rightarrow> config_entries \<Rightarrow> string option"
  target_schema_error :: "string \<Rightarrow> string option"

text \<open>
  Modelled from the spec: the typed record constructor \<^verbatim>\<open>modelrecord_type(**contents)\<close>
  (the class is declared in \<^verbatim>\<open>legacy_model_database_records\<close>, which is missing).
  "Construct the final typed record from the mutated raw structure; a schema violation at
  this step is likewise a per-record fatal error": the constructor either raises
  \<^verbatim>\<open>ValidationError\<close> or returns a record holding the fields it was given, its config
  the one the iterator has just assigned (line 114 has replaced the raw config, which the
  constructor therefore never sees).
\<close>

definition modelrecord_type ::
  "'j schema \<Rightarrow> 'j raw_model_record \<Rightarrow> config_entries
    \<Rightarrow> exn + Legacy_StableDiffusion_ModelRecord" where
  "modelrecord_type sch contents cfg =
     (case record_schema_error sch (contents\<lparr>raw_config := None\<rparr>) cfg of
        Some msg \<Rightarrow> Inl (ValidationError msg)
      | None \<Rightarrow> Inr \<lparr>r_name = raw_name contents, r_type = raw_type contents,
          r_baseline = raw_baseline contents, r_style = raw_style contents,
          r_description = raw_description contents, r_available = raw_available contents,
          r_download_all = raw_download_all contents, r_showcases = raw_showcases contents,
          r_tags = raw_tags contents, r_config = Some cfg\<rparr>)"

subsection \<open>The converter object and the process state\<close>

text \<open>
  \<^verbatim>\<open>__init__\<close> assigns the paths and the two flags on the instance. The dictionaries
  \<^verbatim>\<open>all_model_records\<close> and \<^verbatim>\<open>all_validation_errors_log\<close> are assigned once, in
  the class body of \<^verbatim>\<open>LegacyConverterBase\<close> (lines 32 and 35), and only ever mutated
  through \<^verbatim>\<open>self\<close>, never rebound: every instance reads the same two objects. They are
  therefore fields of the process state, next to standard output and the files written.
\<close>

record converter =
  converted_database_file_path :: string
  debug_mode :: bool
  print_errors :: bool

record conv_state =
  all_model_records :: "(string \<times> Legacy_StableDiffusion_ModelRecord) list"
  all_validation_errors_log :: "(string \<times> string list) list"
  stdout :: "string list"
  created_folders :: "string list"
  written :: "string list"

text \<open>The state of a fresh interpreter: the class body has just run.\<close>

definition initial_state :: conv_state where
  "initial_state = \<lparr>all_model_records = [], all_validation_errors_log = [], stdout = [],
     created_folders = [], written = []\<rparr>"

text \<open>\<^verbatim>\<open>LegacyConverterBase.__init__\<close>: sets instance attributes; the state is untouched.\<close>

definition LegacyConverterBase_init ::
  "string \<Rightarrow> bool \<Rightarrow> bool \<Rightarrow> conv_state \<Rightarrow> converter \<times> conv_state" where
  "LegacyConverterBase_init target_file dbg prt s =
     (\<lparr>converted_database_file_path = target_file, debug_mode = dbg, print_errors = prt\<rparr>, s)"

definition add_validation_error_to_log ::
  "converter \<Rightarrow> string \<Rightarrow> string \<Rightarrow> conv_state \<Rightarrow> conv_state" where
  "add_validation_error_to_log self model_record_key error s =
     (let log0 = all_validation_errors_log s;
          log1 = (if map_of log0 model_record_key = None
                  then AList.update model_record_key [] log0 else log0);
          log2 = AList.update model_record_key
                   ((case map_of log1 model_record_key of None \<Rightarrow> [] | Some es \<Rightarrow> es) @ [error])
                   log1
      in s\<lparr>all_validation_errors_log := log2,
           stdout := (if print_errors self then stdout s @ [''-> '' @ error] else stdout s)\<rparr>)"

subsection \<open>The input-record iterator\<close>

text \<open>
  The locals of one iteration of \<^verbatim>\<open>_iterate_over_input_records\<close>: the checksum table
  and the two lists being built.
\<close>

record iter_locals =
  sha_lookup :: "(string \<times> string option) list"
  new_record_config_files_list :: "Legacy_Config_FileRecord list"
  new_record_config_download_list :: "Legacy_Config_DownloadRecord list"

definition empty_locals :: iter_locals where
  "empty_locals = \<lparr>sha_lookup = [], new_record_config_files_list = [],
     new_record_config_download_list = []\<rparr>"

text \<open>
  Lines 101-107. \<^verbatim>\<open>".yaml" in path\<close> raises \<^verbatim>\<open>TypeError\<close> on a \<^verbatim>\<open>None\<close> path,
  so every key of the table is a string.
\<close>

fun iterate_files ::
  "'j schema \<Rightarrow> 'j list \<Rightarrow> iter_locals \<Rightarrow> exn + iter_locals" where
  "iterate_files sch [] L = Inr L"
| "iterate_files sch (config_file # rest) L =
     (case parse_file_record sch config_file of
        Inl msg \<Rightarrow> Inl (ValidationError msg)
      | Inr parsed_file_record \<Rightarrow>
          (case f_path parsed_file_record of
             None \<Rightarrow> Inl (TypeError (''argument of type '' @ [CHR 0x27] @ ''NoneType'' @ [CHR 0x27]
                       @ '' is not iterable''))
           | Some p \<Rightarrow>
               if str_contains ''.yaml'' p then iterate_files sch rest L
               else iterate_files sch rest
                 (L\<lparr>sha_lookup := AList.update p (f_sha256sum parsed_file_record) (sha_lookup L),
                    new_record_config_files_list := new_record_config_files_list L
                      @ [parsed_file_record\<lparr>f_sha256sum := None\<rparr>]\<rparr>)))"

text \<open>
  Lines 109-112. \<^verbatim>\<open>sha_lookup[file_name]\<close> raises \<^verbatim>\<open>KeyError\<close> when the name is not
  a key of the table (a \<^verbatim>\<open>None\<close> name never is).
\<close>

definition sha_lookup_get :: "(string \<times> string option) list \<Rightarrow> string option \<Rightarrow> exn + string option" where
  "sha_lookup_get tbl file_name =
     (case file_name of
        None \<Rightarrow> Inl (KeyError ''None'')
      | Some n \<Rightarrow> (case map_of tbl n of None \<Rightarrow> Inl (KeyError n) | Some v \<Rightarrow> Inr v))"

fun iterate_downloads ::
  "'j schema \<Rightarrow> 'j list \<Rightarrow> iter_locals \<Rightarrow> exn + iter_locals" where
  "iterate_downloads sch [] L = Inr L"
| "iterate_downloads sch (download # rest) L =
     (case parse_download_record sch download of
        Inl msg \<Rightarrow> Inl (ValidationError msg)
      | Inr parsed_download_record \<Rightarrow>
          (case sha_lookup_get (sha_lookup L) (d_file_name parsed_download_record) of
             Inl e \<Rightarrow> Inl e
           | Inr v \<Rightarrow> iterate_downloads sch rest
               (L\<lparr>new_record_config_download_list := new_record_config_download_list L
                     @ [parsed_download_record\<lparr>d_sha256sum := v\<rparr>]\<rparr>)))"

text \<open>Lines 99-112: the config entries in the order of the JSON object.\<close>

fun iterate_config ::
  "'j schema \<Rightarrow> (string \<times> 'j list) list \<Rightarrow> iter_locals \<Rightarrow> exn + iter_locals" where
  "iterate_config sch [] L = Inr L"
| "iterate_config sch ((config_entry, v) # rest) L =
     (if config_entry = ''files'' then
        (case iterate_files sch v L of
           Inl e \<Rightarrow> Inl e
         | Inr L' \<Rightarrow> iterate_config sch rest L')
      else if config_entry = ''download'' then
        (case iterate_downloads sch v L of
           Inl e \<Rightarrow> Inl e
         | Inr L' \<Rightarrow> iterate_config sch rest L')
      else iterate_config sch rest L)"

text \<open>
  The handler of line 121: only \<^verbatim>\<open>ValidationError\<close> is caught (logged under the key,
  then \<^verbatim>\<open>continue\<close>). Any other exception leaves the generator.
\<close>

definition on_record_exception ::
  "converter \<Rightarrow> string \<Rightarrow> exn \<Rightarrow> conv_state
    \<Rightarrow> (exn + Legacy_StableDiffusion_ModelRecord option) \<times> conv_state" where
  "on_record_exception self model_record_key e s =
     (case e of
        ValidationError msg \<Rightarrow>
          (Inr None, add_validation_error_to_log self model_record_key
             (''CRITICAL: Error parsing '' @ model_record_key @ '':'' @ [CHR 0x0A] @ msg) s)
      | _ \<Rightarrow> (Inl e, s))"

text \<open>
  One iteration of the loop of line 91. \<open>Inr (Some r)\<close>: the record is stored and yielded;
  \<open>Inr None\<close>: the record failed validation and the loop continues; \<open>Inl e\<close>: the exception
  \<open>e\<close> propagates out of the generator into \<^verbatim>\<open>normalize_and_convert\<close>.
\<close>

definition iterate_record ::
  "'j schema \<Rightarrow> converter \<Rightarrow> string \<Rightarrow> 'j raw_model_record \<Rightarrow> conv_state
    \<Rightarrow> (exn + Legacy_StableDiffusion_ModelRecord option) \<times> conv_state" where
  "iterate_record sch self model_record_key model_record_contents s =
     (case raw_config model_record_contents of
        None \<Rightarrow> (Inl (KeyError ''config''), s)
      | Some cfg \<Rightarrow>
          (let s1 = (if length cfg > 2
                     then add_validation_error_to_log self model_record_key
                            (model_record_key @ '' has more than 2 config entries.'') s
                     else s)
           in case iterate_config sch cfg empty_locals of
                Inl e \<Rightarrow> on_record_exception self model_record_key e s1
              | Inr L \<Rightarrow>
                  (case modelrecord_type sch model_record_contents
                          [(''download'', map DownloadItem (new_record_config_download_list L))] of
                     Inl e \<Rightarrow> on_record_exception self model_record_key e s1
                   | Inr record_as_conversion_class \<Rightarrow>
                       (Inr (Some record_as_conversion_class),
                        s1\<lparr>all_model_records := AList.update model_record_key
                              record_as_conversion_class (all_model_records s1)\<rparr>))))"

subsection \<open>Baseline identifiers\<close>

text \<open>
  \<^verbatim>\<open>convert_legacy_baseline\<close>: an if/elif chain over three literal strings; any other
  string falls through and is returned as it came.
\<close>

definition convert_legacy_baseline :: "string \<Rightarrow> string" where
  "convert_legacy_baseline baseline =
     (if baseline = ''stable diffusion 1'' then ''stable_diffusion_1''
      else if baseline = ''stable diffusion 2'' then ''stable_diffusion_2_768''
      else if baseline = ''stable diffusion 2 512'' then ''stable_diffusion_2_512''
      else baseline)"

subsection \<open>The environment: library functions and the file system\<close>

text \<open>
  What \<^verbatim>\<open>normalize_and_convert\<close> calls outside this file: the folder-name helper of
  \<^verbatim>\<open>horde_model_reference.util\<close>, \<^verbatim>\<open>pathlib\<close>, \<^verbatim>\<open>urllib.parse\<close>, the base URL
  of \<^verbatim>\<open>consts\<close>, the results of the two \<^verbatim>\<open>glob\<close> passes and of the file-system tests
  of the second pass, and the text forms Python prints and serializes. \<open>urlparse_netloc\<close>
  returns \<open>Inl e\<close> where \<^verbatim>\<open>urllib.parse.urlparse\<close> raises.
\<close>

record model_reference =
  baseline_types :: "(string \<times> nat) list"
  styles :: "(string \<times> nat) list"
  tags :: "(string \<times> nat) list"
  model_hosts :: "(string \<times> nat) list"
  models :: "(string \<times> Legacy_StableDiffusion_ModelRecord) list"

record env =
  model_name_to_showcase_folder_name :: "string \<Rightarrow> string"
  path_name :: "string \<Rightarrow> string"
  url_quote :: "string \<Rightarrow> string"
  urljoin :: "string \<Rightarrow> string \<Rightarrow> string"
  urlparse_netloc :: "string \<Rightarrow> exn + string"
  MODEL_REFERENCE_GITHUB_REPO :: string
  glob_showcase_initial :: "string list"
  glob_folder_files :: "string \<Rightarrow> string list"
  glob_showcase_final :: "string list"
  path_is_file :: "string \<Rightarrow> bool"
  path_is_dir :: "string \<Rightarrow> bool"
  path_has_children :: "string \<Rightarrow> bool"
  repr_counts :: "(string \<times> nat) list \<Rightarrow> string"
  repr_nat :: "nat \<Rightarrow> string"
  reference_json :: "model_reference \<Rightarrow> string"

definition py_print :: "string \<Rightarrow> conv_state \<Rightarrow> conv_state" where
  "py_print line s = s\<lparr>stdout := stdout s @ [line]\<rparr>"

text \<open>\<^verbatim>\<open>d[k] = d.get(k, 0) + 1\<close>\<close>

definition count_up :: "string \<Rightarrow> (string \<times> nat) list \<Rightarrow> (string \<times> nat) list" where
  "count_up k d = AList.update k ((case map_of d k of None \<Rightarrow> 0 | Some c \<Rightarrow> c) + 1) d"

text \<open>The four frequency tables, locals of \<^verbatim>\<open>normalize_and_convert\<close>.\<close>

record aggregates =
  all_baseline_types :: "(string \<times> nat) list"
  all_styles :: "(string \<times> nat) list"
  all_tags :: "(string \<times> nat) list"
  all_model_hosts :: "(string \<times> nat) list"

definition empty_aggregates :: aggregates where
  "empty_aggregates = \<lparr>all_baseline_types = [], all_styles = [], all_tags = [],
     all_model_hosts = []\<rparr>"

subsection \<open>Record sanity checks\<close>

definition generic_record_sanity_checks ::
  "converter \<Rightarrow> string \<Rightarrow> Legacy_StableDiffusion_ModelRecord \<Rightarrow> conv_state \<Rightarrow> conv_state" where
  "generic_record_sanity_checks self model_record_key record s =
     (let s1 = (if r_name record \<noteq> model_record_key
                then add_validation_error_to_log self model_record_key
                       (''name mismatch for '' @ model_record_key @ ''.'') s
                else s);
          s2 = (if r_available record
                then add_validation_error_to_log self model_record_key
                       (model_record_key @ '' is flagged '' @ [CHR 0x27] @ ''available''
                          @ [CHR 0x27] @ ''.'') s1
                else s1);
          s3 = (if r_download_all record \<and> debug_mode self
                then add_validation_error_to_log self model_record_key
                       (model_record_key @ '' has download_all set.'') s2
                else s2);
          s4 = (if r_config record = None
                then add_validation_error_to_log self model_record_key
                       (model_record_key @ '' has no config.'') s3
                else s3);
          s5 = (if r_description record = None
                then add_validation_error_to_log self model_record_key
                       (model_record_key @ '' has no description.'') s4
                else s4)
      in if r_style record = []
         then add_validation_error_to_log self model_record_key
                (model_record_key @ '' has no style.'') s5
         else s5)"

subsection \<open>Showcase folders\<close>

fun get_existing_showcases ::
  "env \<Rightarrow> string list \<Rightarrow> (string \<times> string list) list \<Rightarrow> (string \<times> string list) list" where
  "get_existing_showcases E [] existing_showcase_files = existing_showcase_files"
| "get_existing_showcases E (showcase_folder # rest) existing_showcase_files =
     get_existing_showcases E rest
       (AList.update (model_name_to_showcase_folder_name E (path_name E showcase_folder))
          (glob_folder_files E showcase_folder) existing_showcase_files)"

text \<open>\<^verbatim>\<open>mkdir(parents=True, exist_ok=True)\<close> under the output folder.\<close>

definition create_showcase_folder :: "string \<Rightarrow> conv_state \<Rightarrow> conv_state" where
  "create_showcase_folder expected_showcase_foldername s =
     s\<lparr>created_folders := created_folders s @ [''showcase/'' @ expected_showcase_foldername]\<rparr>"

text \<open>Lines 254-262: the public URL of one showcase file.\<close>

definition expected_github_location :: "env \<Rightarrow> string \<Rightarrow> string \<Rightarrow> string" where
  "expected_github_location E expected_showcase_foldername file =
     urljoin E (MODEL_REFERENCE_GITHUB_REPO E)
       (''showcase/'' @ expected_showcase_foldername @ ''/'' @ url_quote E (path_name E file))"

text \<open>
  The yielded record is the object stored in \<^verbatim>\<open>all_model_records\<close>; an assignment to one
  of its attributes is an assignment to the stored object.
\<close>

definition store_record ::
  "string \<Rightarrow> Legacy_StableDiffusion_ModelRecord \<Rightarrow> conv_state \<Rightarrow> conv_state" where
  "store_record model_record_key record s =
     s\<lparr>all_model_records := AList.update model_record_key record (all_model_records s)\<rparr>"

text \<open>
  Lines 241-263. The declared list is replaced only under the guard of line 241. Line 252
  has emptied the list when line 253 reads the listing, which raises \<^verbatim>\<open>KeyError\<close>
  for a folder name that is not a key.
\<close>

definition reconcile_showcases ::
  "env \<Rightarrow> converter \<Rightarrow> (string \<times> string list) list \<Rightarrow> string \<Rightarrow> string
    \<Rightarrow> Legacy_StableDiffusion_ModelRecord \<Rightarrow> conv_state
    \<Rightarrow> (exn + Legacy_StableDiffusion_ModelRecord) \<times> conv_state" where
  "reconcile_showcases E self existing_showcase_files model_record_key
       expected_showcase_foldername record s =
     (case r_showcases record of
        None \<Rightarrow> (Inr record, s)
      | Some showcases \<Rightarrow>
          if length showcases > 0 then
            (let s1 = (if list_ex (str_contains ''huggingface'') showcases
                       then add_validation_error_to_log self model_record_key
                              (model_record_key @ '' has a huggingface showcase.'') s
                       else s);
                 s2 = (if map_of existing_showcase_files expected_showcase_foldername = None
                       then add_validation_error_to_log self model_record_key
                              (model_record_key @ '' has no showcase folder. Expected: ''
                                 @ expected_showcase_foldername) s1
                       else s1);
                 s3 = store_record model_record_key (record\<lparr>r_showcases := Some []\<rparr>) s2
             in case map_of existing_showcase_files expected_showcase_foldername of
                  None \<Rightarrow> (Inl (KeyError expected_showcase_foldername), s3)
                | Some files \<Rightarrow>
                    (let record' = record\<lparr>r_showcases :=
                           Some (map (expected_github_location E expected_showcase_foldername) files)\<rparr>
                     in (Inr record', store_record model_record_key record' s3)))
          else (Inr record, s))"

subsection \<open>Config entry checks\<close>

text \<open>
  \<^verbatim>\<open>normalize_and_convert_config_entries\<close>. Every finding of this function is a bare
  \<^verbatim>\<open>print\<close>. The result of each loop is the exception raised (if any), the entries as
  the loop leaves them (line 446 assigns \<^verbatim>\<open>known_slow_download\<close> on the descriptor),
  and the host table.
\<close>

fun check_files :: "string \<Rightarrow> config_item list \<Rightarrow> conv_state \<Rightarrow> exn option \<times> conv_state" where
  "check_files model_record_key [] s = (None, s)"
| "check_files model_record_key (item # rest) s =
     (case item of
        DownloadItem _ \<Rightarrow>
          (Some (TypeError ''Expected `Legacy_Config_FileRecord`.''),
           py_print (model_record_key @ '' is in '' @ [CHR 0x27] @ ''files'' @ [CHR 0x27]
             @ '' but isn'' @ [CHR 0x27] @ ''t a `Legacy_Config_FileRecord`!'') s)
      | FileItem config_file \<Rightarrow>
          (let s1 = (if f_path config_file = None \<or> f_path config_file = Some []
                     then py_print (model_record_key @ '' has a config file with no path.'') s
                     else s)
           in case f_path config_file of
                None \<Rightarrow> (Some (TypeError (''argument of type '' @ [CHR 0x27] @ ''NoneType''
                           @ [CHR 0x27] @ '' is not iterable'')), s1)
              | Some p \<Rightarrow>
                  if str_contains ''.yaml'' p then
                    check_files model_record_key rest
                      (if p \<noteq> ''v2-inference-v.yaml'' \<and> p \<noteq> ''v1-inference.yaml''
                       then py_print (model_record_key @ '' has a non-standard config.'') s1
                       else s1)
                  else
                    (let s2 = (if \<not> str_contains ''.ckpt'' p
                               then py_print (model_record_key
                                      @ '' does not have a ckpt file specified.'') s1
                               else s1);
                         s3 = (case f_sha256sum config_file of
                                 None \<Rightarrow> py_print (model_record_key
                                      @ '' has a config file with no sha256sum.'') s2
                               | Some sha \<Rightarrow>
                                   if sha = [] then py_print (model_record_key
                                      @ '' has a config file with no sha256sum.'') s2
                                   else if length sha \<noteq> 64 then py_print (model_record_key
                                      @ '' has a config file with an invalid sha256sum.'') s2
                                   else s2)
                     in check_files model_record_key rest s3)))"

fun check_downloads ::
  "env \<Rightarrow> string \<Rightarrow> config_item list \<Rightarrow> (string \<times> nat) list \<Rightarrow> conv_state
    \<Rightarrow> (exn option \<times> config_item list \<times> (string \<times> nat) list) \<times> conv_state" where
  "check_downloads E model_record_key [] download_hosts s = ((None, [], download_hosts), s)"
| "check_downloads E model_record_key (item # rest) download_hosts s =
     (case item of
        FileItem _ \<Rightarrow>
          ((Some (TypeError ''Expected `Legacy_Config_DownloadRecord`.''), item # rest,
            download_hosts),
           py_print (model_record_key @ '' is in '' @ [CHR 0x27] @ ''download'' @ [CHR 0x27]
             @ '' but isn'' @ [CHR 0x27] @ ''t a `Legacy_Config_DownloadRecord`!'') s)
      | DownloadItem download \<Rightarrow>
          (let s1 = (if d_file_name download = None \<or> d_file_name download = Some []
                     then py_print (model_record_key @ '' has a download with no file_name.'') s
                     else s);
               s2 = (if d_file_path download = None \<or> d_file_path download \<noteq> Some []
                     then py_print (model_record_key @ '' has a download with a file_path.'') s1
                     else s1)
           in if d_file_url download = None \<or> d_file_url download = Some [] then
                (case check_downloads E model_record_key rest download_hosts
                        (py_print (model_record_key @ '' has a download with no file_url.'') s2) of
                   ((r, rest', hosts'), s') \<Rightarrow> ((r, item # rest', hosts'), s'))
              else
                (let u = (case d_file_url download of None \<Rightarrow> [] | Some u \<Rightarrow> u);
                     download' = (if str_contains ''civitai'' u
                                  then download\<lparr>d_known_slow_download := Some True\<rparr>
                                  else download)
                 in case urlparse_netloc E u of
                      Inl e \<Rightarrow>
                        ((Some e, DownloadItem download' # rest, download_hosts),
                         py_print (model_record_key
                           @ '' has a download with an invalid file_url.'') s2)
                    | Inr host \<Rightarrow>
                        (case check_downloads E model_record_key rest
                                (count_up host download_hosts) s2 of
                           ((r, rest', hosts'), s') \<Rightarrow>
                             ((r, DownloadItem download' # rest', hosts'), s')))))"

fun check_config_entries ::
  "env \<Rightarrow> string \<Rightarrow> config_entries \<Rightarrow> (string \<times> nat) list \<Rightarrow> conv_state
    \<Rightarrow> (exn option \<times> config_entries \<times> (string \<times> nat) list) \<times> conv_state" where
  "check_config_entries E model_record_key [] download_hosts s = ((None, [], download_hosts), s)"
| "check_config_entries E model_record_key ((config_entry_key, config_entry_object) # rest)
       download_hosts s =
     (if config_entry_key = ''files'' then
        (case check_files model_record_key config_entry_object s of
           (Some e, s1) \<Rightarrow>
             ((Some e, (config_entry_key, config_entry_object) # rest, download_hosts), s1)
         | (None, s1) \<Rightarrow>
             (case check_config_entries E model_record_key rest download_hosts s1 of
                ((r, rest', hosts'), s') \<Rightarrow>
                  ((r, (config_entry_key, config_entry_object) # rest', hosts'), s')))
      else if config_entry_key = ''download'' then
        (case check_downloads E model_record_key config_entry_object download_hosts s of
           ((Some e, object', hosts1), s1) \<Rightarrow>
             ((Some e, (config_entry_key, object') # rest, hosts1), s1)
         | ((None, object', hosts1), s1) \<Rightarrow>
             (case check_config_entries E model_record_key rest hosts1 s1 of
                ((r, rest', hosts'), s') \<Rightarrow>
                  ((r, (config_entry_key, object') # rest', hosts'), s')))
      else
        (case check_config_entries E model_record_key rest download_hosts s of
           ((r, rest', hosts'), s') \<Rightarrow>
             ((r, (config_entry_key, config_entry_object) # rest', hosts'), s')))"

definition normalize_and_convert_config_entries ::
  "env \<Rightarrow> string \<Rightarrow> config_entries \<Rightarrow> conv_state
    \<Rightarrow> (exn option \<times> config_entries \<times> (string \<times> nat) list) \<times> conv_state" where
  "normalize_and_convert_config_entries E model_record_key config_entries s =
     check_config_entries E model_record_key config_entries [] s"

subsection \<open>The orchestrator\<close>

text \<open>
  Lines 205-288, the body of the loop over the yielded records. The tests of lines 207 and
  210 cannot fire on a typed record. An exception ends the run: the frequency tables are
  locals and are lost with it.
\<close>

definition normalize_and_convert_body ::
  "env \<Rightarrow> converter \<Rightarrow> (string \<times> string list) list \<Rightarrow> string
    \<Rightarrow> Legacy_StableDiffusion_ModelRecord \<Rightarrow> aggregates \<Rightarrow> conv_state
    \<Rightarrow> (exn + aggregates) \<times> conv_state" where
  "normalize_and_convert_body E self existing_showcase_files model_record_key
       model_record_in_progress agg s =
     (let s1 = generic_record_sanity_checks self model_record_key model_record_in_progress s;
          agg1 = agg\<lparr>all_styles := count_up (r_style model_record_in_progress) (all_styles agg)\<rparr>;
          s2 = (if r_type model_record_in_progress \<noteq> ''ckpt''
                then add_validation_error_to_log self model_record_key
                       (model_record_key @ '' is not a ckpt!'') s1
                else s1);
          record1 = model_record_in_progress
            \<lparr>r_baseline := convert_legacy_baseline (r_baseline model_record_in_progress)\<rparr>;
          s3 = store_record model_record_key record1 s2;
          agg2 = agg1\<lparr>all_baseline_types :=
                   count_up (r_baseline record1) (all_baseline_types agg1)\<rparr>;
          expected_showcase_foldername = model_name_to_showcase_folder_name E model_record_key;
          s4 = create_showcase_folder expected_showcase_foldername s3
      in case reconcile_showcases E self existing_showcase_files model_record_key
                expected_showcase_foldername record1 s4 of
           (Inl e, s5) \<Rightarrow> (Inl e, s5)
         | (Inr record2, s5) \<Rightarrow>
             (let agg3 = (case r_tags record2 of
                            None \<Rightarrow> agg2
                          | Some ts \<Rightarrow> agg2\<lparr>all_tags := fold count_up ts (all_tags agg2)\<rparr>)
              in case r_config record2 of
                   None \<Rightarrow> (Inl (TypeError (''object of type '' @ [CHR 0x27] @ ''NoneType''
                              @ [CHR 0x27] @ '' has no len()'')), s5)
                 | Some config_entries \<Rightarrow>
                     (let s6 = (if length config_entries = 0
                                then add_validation_error_to_log self model_record_key
                                       (model_record_key @ '' has no config.'') s5
                                else s5)
                      in case normalize_and_convert_config_entries E model_record_key
                                config_entries s6 of
                           ((r, config_entries', found_hosts), s7) \<Rightarrow>
                             (let s8 = store_record model_record_key
                                         (record2\<lparr>r_config := Some config_entries'\<rparr>) s7
                              in case r of
                                   Some e \<Rightarrow> (Inl e, s8)
                                 | None \<Rightarrow>
                                     (Inr (agg3\<lparr>all_model_hosts :=
                                             fold count_up (map fst found_hosts)
                                               (all_model_hosts agg3)\<rparr>), s8)))))"

text \<open>
  The loop of line 205 over the generator: each raw record is normalized by the iterator
  and, when yielded, processed by the body before the next one is read.
\<close>

fun stream_records ::
  "'j schema \<Rightarrow> env \<Rightarrow> converter \<Rightarrow> (string \<times> string list) list
    \<Rightarrow> (string \<times> 'j raw_model_record) list \<Rightarrow> aggregates \<Rightarrow> conv_state
    \<Rightarrow> (exn + aggregates) \<times> conv_state" where
  "stream_records sch E self existing_showcase_files [] agg s = (Inr agg, s)"
| "stream_records sch E self existing_showcase_files
       ((model_record_key, model_record_contents) # rest) agg s =
     (case iterate_record sch self model_record_key model_record_contents s of
        (Inl e, s1) \<Rightarrow> (Inl e, s1)
      | (Inr None, s1) \<Rightarrow> stream_records sch E self existing_showcase_files rest agg s1
      | (Inr (Some record), s1) \<Rightarrow>
          (case normalize_and_convert_body E self existing_showcase_files model_record_key
                  record agg s1 of
             (Inl e, s2) \<Rightarrow> (Inl e, s2)
           | (Inr agg', s2) \<Rightarrow>
               stream_records sch E self existing_showcase_files rest agg' s2))"

text \<open>Lines 292-300: empty showcase folders.\<close>

fun check_empty_folders :: "env \<Rightarrow> converter \<Rightarrow> string list \<Rightarrow> conv_state \<Rightarrow> conv_state" where
  "check_empty_folders E self [] s = s"
| "check_empty_folders E self (folder # rest) s =
     (if path_is_file E folder then check_empty_folders E self rest s
      else check_empty_folders E self rest
        (if \<not> path_has_children E folder
         then add_validation_error_to_log self (path_name E folder)
                (''showcase folder '' @ [CHR 0x27] @ path_name E folder @ [CHR 0x27]
                   @ '' is empty.'') s
         else s))"

text \<open>Lines 309-312: folders on disk that no model record expects.\<close>

fun check_orphan_folders ::
  "converter \<Rightarrow> string list \<Rightarrow> string list \<Rightarrow> conv_state \<Rightarrow> conv_state" where
  "check_orphan_folders self final_expected_showcase_folders [] s = s"
| "check_orphan_folders self final_expected_showcase_folders (folder # rest) s =
     check_orphan_folders self final_expected_showcase_folders rest
       (if folder \<notin> set final_expected_showcase_folders
        then add_validation_error_to_log self folder
               (''folder '' @ [CHR 0x27] @ folder @ [CHR 0x27]
                  @ '' is not in the model records.'') s
        else s)"

text \<open>Lines 314-327: the summary printed before the final validation.\<close>

definition print_summary :: "env \<Rightarrow> aggregates \<Rightarrow> nat \<Rightarrow> conv_state \<Rightarrow> conv_state" where
  "print_summary E agg n_showcase_folders s =
     fold py_print
       [[],
        ''all_styles='' @ repr_counts E (all_styles agg),
        ''all_baseline_types='' @ repr_counts E (all_baseline_types agg),
        ''all_tags='' @ repr_counts E (all_tags agg),
        ''all_model_hosts='' @ repr_counts E (all_model_hosts agg),
        [],
        ''Total number of models: '' @ repr_nat E (length (all_model_records s)),
        ''Total number of showcase folders: '' @ repr_nat E n_showcase_folders,
        [],
        ''Total number of models with errors: ''
           @ repr_nat E (length (all_validation_errors_log s)),
        [],
        ''Errors and warnings are listed above on lines prefixed with `-> `''] s"

text \<open>Lines 329-339: the output object; every stored record is a stable diffusion record.\<close>

definition build_model_reference :: "aggregates \<Rightarrow> conv_state \<Rightarrow> model_reference" where
  "build_model_reference agg s =
     \<lparr>baseline_types = all_baseline_types agg, styles = all_styles agg,
      tags = all_tags agg, model_hosts = all_model_hosts agg,
      models = all_model_records s\<rparr>"

text \<open>
  Lines 290-361: the second file-system pass, the summary, the final validation against
  the target schema and the write of the output file.
\<close>

definition finish_run ::
  "'j schema \<Rightarrow> env \<Rightarrow> converter \<Rightarrow> aggregates \<Rightarrow> conv_state \<Rightarrow> (exn + bool) \<times> conv_state" where
  "finish_run sch E self agg s =
     (let final_on_disk_showcase_folders = glob_showcase_final E;
          s1 = check_empty_folders E self final_on_disk_showcase_folders s;
          final_on_disk_showcase_folders_names =
            map (path_name E) (filter (path_is_dir E) final_on_disk_showcase_folders);
          final_expected_showcase_folders =
            map (model_name_to_showcase_folder_name E) (map fst (all_model_records s1));
          s2 = check_orphan_folders self final_expected_showcase_folders
                 final_on_disk_showcase_folders_names s1;
          s3 = print_summary E agg (length final_on_disk_showcase_folders_names) s2;
          jsonToWrite = reference_json E (build_model_reference agg s3)
      in case target_schema_error sch jsonToWrite of
           Some msg \<Rightarrow>
             (Inl (ValidationError msg),
              py_print ''CRITICAL: Failed to convert to new model reference type.''
                (py_print msg s3))
         | None \<Rightarrow>
             (Inr True,
              fold py_print
                [''Converted database passes validation and was written to disk successfully.'',
                 ''Converted database written to: '' @ converted_database_file_path self]
                (s3\<lparr>written := written s3 @ [jsonToWrite]\<rparr>)))"

text \<open>
  \<^verbatim>\<open>LegacyStableDiffusionConverter.normalize_and_convert\<close> on the parsed legacy file
  \<open>raw_legacy_json_data\<close>. \<open>Inl e\<close>: the call raises \<open>e\<close>.
\<close>

definition normalize_and_convert ::
  "'j schema \<Rightarrow> env \<Rightarrow> converter \<Rightarrow> (string \<times> 'j raw_model_record) list \<Rightarrow> conv_state
    \<Rightarrow> (exn + bool) \<times> conv_state" where
  "normalize_and_convert sch E self raw_legacy_json_data s =
     (let existing_showcase_files = get_existing_showcases E (glob_showcase_initial E) []
      in case stream_records sch E self existing_showcase_files raw_legacy_json_data
                empty_aggregates s of
           (Inl e, s1) \<Rightarrow> (Inl e, s1)
         | (Inr agg, s1) \<Rightarrow> finish_run sch E self agg s1)"

subsection \<open>Vocabulary of the properties\<close>

text \<open>The raw file descriptors of a config block: the lists under the key \<^verbatim>\<open>"files"\<close>.\<close>

definition config_files :: "(string \<times> 'j list) list \<Rightarrow> 'j list" where
  "config_files cfg = concat (map snd (filter (\<lambda>entry. fst entry = ''files'') cfg))"

text \<open>
  A raw descriptor is a file descriptor with path \<open>p\<close> and checksum \<open>c\<close> when the file
  record class parses it so.
\<close>

definition file_descriptor :: "'j schema \<Rightarrow> 'j \<Rightarrow> string \<Rightarrow> string option \<Rightarrow> bool" where
  "file_descriptor sch j p c =
     (case parse_file_record sch j of
        Inl msg \<Rightarrow> False
      | Inr f \<Rightarrow> f_path f = Some p \<and> f_sha256sum f = c)"

text \<open>
  A config block is well-formed when every raw file descriptor parses to a record with
  a path and every raw download descriptor parses to a record whose file name has no YAML
  extension and is the path of one of the file descriptors.
\<close>

definition well_formed_config :: "'j schema \<Rightarrow> 'j list \<Rightarrow> 'j list \<Rightarrow> bool" where
  "well_formed_config sch files downloads \<longleftrightarrow>
     (\<forall>j\<in>set files. \<exists>f p. parse_file_record sch j = Inr f \<and> f_path f = Some p)
     \<and> (\<forall>j\<in>set downloads. \<exists>d n. parse_download_record sch j = Inr d
            \<and> d_file_name d = Some n \<and> \<not> str_contains ''.yaml'' n
            \<and> (\<exists>j'\<in>set files. \<exists>c. file_descriptor sch j' n c))"

text \<open>
  Two invariants of the iterator's loops, over the set \<open>F\<close> of raw file descriptors seen:
  every entry of the checksum table, and every checksum already transferred to a
  download descriptor, comes from a file descriptor of \<open>F\<close> whose path has no YAML
  extension.
\<close>

definition table_from :: "'j schema \<Rightarrow> 'j set \<Rightarrow> iter_locals \<Rightarrow> bool" where
  "table_from sch F L \<longleftrightarrow>
     (\<forall>n v. map_of (sha_lookup L) n = Some v \<longrightarrow>
        \<not> str_contains ''.yaml'' n \<and> (\<exists>j\<in>F. file_descriptor sch j n v))"

definition downloads_from :: "'j schema \<Rightarrow> 'j set \<Rightarrow> iter_locals \<Rightarrow> bool" where
  "downloads_from sch F L \<longleftrightarrow>
     (\<forall>d\<in>set (new_record_config_download_list L). \<exists>n.
        d_file_name d = Some n \<and> \<not> str_contains ''.yaml'' n
        \<and> (\<exists>j\<in>F. file_descriptor sch j n (d_sha256sum d)))"

text \<open>The four findings the download loop of the config checker prints for a record key.\<close>

definition download_findings :: "string \<Rightarrow> string set" where
  "download_findings k =
     {k @ '' has a download with no file_name.'',
      k @ '' has a download with a file_path.'',
      k @ '' has a download with no file_url.'',
      k @ '' has a download with an invalid file_url.''}"

text \<open>
  What the checker prints in its \<^verbatim>\<open>"files"\<close> branch, and before each of its two
  \<^verbatim>\<open>TypeError\<close> raises.
\<close>

definition guarded_findings :: "string \<Rightarrow> string set" where
  "guarded_findings k =
     {k @ '' is in '' @ [CHR 0x27] @ ''files'' @ [CHR 0x27]
        @ '' but isn'' @ [CHR 0x27] @ ''t a `Legacy_Config_FileRecord`!'',
      k @ '' has a config file with no path.'',
      k @ '' has a non-standard config.'',
      k @ '' does not have a ckpt file specified.'',
      k @ '' has a config file with no sha256sum.'',
      k @ '' has a config file with an invalid sha256sum.'',
      k @ '' is in '' @ [CHR 0x27] @ ''download'' @ [CHR 0x27]
        @ '' but isn'' @ [CHR 0x27] @ ''t a `Legacy_Config_DownloadRecord`!''}"

text \<open>
  What the download loop of the checker hands back to the orchestrator: the exception it
  raised (if any) and the host table.
\<close>

definition download_outcome ::
  "env \<Rightarrow> string \<Rightarrow> config_item list \<Rightarrow> (string \<times> nat) list \<Rightarrow> conv_state
    \<Rightarrow> exn option \<times> (string \<times> nat) list" where
  "download_outcome E k items h s =
     (case check_downloads E k items h s of ((r, items', hosts), s') \<Rightarrow> (r, hosts))"

text \<open>
  The checksum of the file descriptor whose path equals a file name: the checksum the
  descriptor \<open>j\<close> declares for the path \<open>n\<close>, and over a list of descriptors the one of
  the last descriptor with that path (a later descriptor overrides an earlier one).
\<close>

definition descriptor_checksum :: "'j schema \<Rightarrow> 'j \<Rightarrow> string \<Rightarrow> string option option" where
  "descriptor_checksum sch j n =
     (case parse_file_record sch j of
        Inl msg \<Rightarrow> None
      | Inr f \<Rightarrow> if f_path f = Some n then Some (f_sha256sum f) else None)"

fun file_checksum :: "'j schema \<Rightarrow> 'j list \<Rightarrow> string \<Rightarrow> string option option" where
  "file_checksum sch [] n = None"
| "file_checksum sch (j # rest) n =
     (case file_checksum sch rest n of
        Some c \<Rightarrow> Some c
      | None \<Rightarrow> descriptor_checksum sch j n)"



text \<open>
  A download descriptor whose URL does not make the checker raise: no URL, an empty one,
  or one the URL parser accepts.
\<close>

definition url_does_not_raise :: "env \<Rightarrow> Legacy_Config_DownloadRecord \<Rightarrow> bool" where
  "url_does_not_raise E d =
     (case d_file_url d of
        None \<Rightarrow> True
      | Some u \<Rightarrow> u = [] \<or> (case urlparse_netloc E u of Inl e \<Rightarrow> False | Inr host \<Rightarrow> True))"

subsection \<open>Example inputs\<close>

text \<open>
  A concrete instance for evaluating the converter: raw descriptors are already of one of
  the two record classes, and a descriptor of the other class fails validation.
\<close>

type_synonym raw_descriptor = "Legacy_Config_FileRecord + Legacy_Config_DownloadRecord"

definition example_schema :: "raw_descriptor schema" where
  "example_schema =
     \<lparr>parse_file_record =
        (\<lambda>j. case j of Inl f \<Rightarrow> Inr f | Inr d \<Rightarrow> Inl ''path: field required''),
      parse_download_record =
        (\<lambda>j. case j of Inl f \<Rightarrow> Inl ''file_name: field required'' | Inr d \<Rightarrow> Inr d),
      record_schema_error = (\<lambda>contents cfg. None),
      target_schema_error = (\<lambda>json. None)\<rparr>"

text \<open>The same classes with a target schema that rejects every document.\<close>

definition rejecting_schema :: "raw_descriptor schema" where
  "rejecting_schema = example_schema\<lparr>target_schema_error := (\<lambda>json. Some ''models: invalid'')\<rparr>"

text \<open>
  The network location of a URL as \<^verbatim>\<open>urllib.parse.urlparse\<close> reads it: what follows
  the first \<^verbatim>\<open>//\<close> up to the next \<^verbatim>\<open>/\<close>, \<^verbatim>\<open>?\<close> or \<^verbatim>\<open>#\<close>; a location with
  one square bracket and not the other raises \<^verbatim>\<open>ValueError\<close>.
\<close>

fun after_slashes :: "string \<Rightarrow> string" where
  "after_slashes (a # b # rest) =
     (if a = CHR ''/'' \<and> b = CHR ''/'' then rest else after_slashes (b # rest))"
| "after_slashes _ = []"

definition example_netloc :: "string \<Rightarrow> exn + string" where
  "example_netloc u =
     (let netloc = takeWhile (\<lambda>c. c \<noteq> CHR ''/'' \<and> c \<noteq> CHR ''?'' \<and> c \<noteq> CHR ''#'')
                     (after_slashes u)
      in if (CHR ''['' \<in> set netloc) \<noteq> (CHR '']'' \<in> set netloc)
         then Inl (ValueError ''Invalid IPv6 URL'') else Inr netloc)"

text \<open>An environment with one showcase folder \<open>demo\<close> on disk holding one file.\<close>

definition example_env :: env where
  "example_env =
     \<lparr>model_name_to_showcase_folder_name = (\<lambda>n. n),
      path_name = (\<lambda>p. p),
      url_quote = (\<lambda>n. n),
      urljoin = (\<lambda>base rel. base @ rel),
      urlparse_netloc = example_netloc,
      MODEL_REFERENCE_GITHUB_REPO = ''https://example.org/main/'',
      glob_showcase_initial = [''demo''],
      glob_folder_files = (\<lambda>folder. if folder = ''demo'' then [''01.webp''] else []),
      glob_showcase_final = [''demo''],
      path_is_file = (\<lambda>p. False),
      path_is_dir = (\<lambda>p. True),
      path_has_children = (\<lambda>p. True),
      repr_counts = (\<lambda>d. concat (map fst d)),
      repr_nat = (\<lambda>n. replicate n CHR ''I''),
      reference_json = (\<lambda>ref. concat (map fst (models ref)))\<rparr>"

definition example_converter :: converter where
  "example_converter =
     \<lparr>converted_database_file_path = ''out/stable_diffusion.json'',
      debug_mode = False, print_errors = True\<rparr>"

definition example_file :: Legacy_Config_FileRecord where
  "example_file = \<lparr>f_path = Some ''model.ckpt'', f_sha256sum = Some ''abc''\<rparr>"

definition example_yaml_file :: Legacy_Config_FileRecord where
  "example_yaml_file = \<lparr>f_path = Some ''v1-inference.yaml'', f_sha256sum = Some ''yyy''\<rparr>"

definition example_download :: Legacy_Config_DownloadRecord where
  "example_download =
     \<lparr>d_file_name = Some ''model.ckpt'', d_file_path = Some [],
      d_file_url = Some ''https://civitai.com/x'', d_sha256sum = None,
      d_known_slow_download = None\<rparr>"

definition example_record :: "raw_descriptor raw_model_record" where
  "example_record =
     \<lparr>raw_name = ''demo'', raw_type = ''ckpt'', raw_baseline = ''stable diffusion 1'',
      raw_style = ''generalist'', raw_description = Some ''a model'', raw_available = False,
      raw_download_all = False, raw_showcases = Some [''https://huggingface.co/old.png''],
      raw_tags = Some [''anime''],
      raw_config = Some [(''files'', [Inl example_yaml_file, Inl example_file]),
                         (''download'', [Inr example_download])]\<rparr>"

text \<open>A record whose only download has a URL the parser of the example rejects.\<close>

definition bad_url_download :: Legacy_Config_DownloadRecord where
  "bad_url_download = example_download\<lparr>d_file_url := Some ''http://[::1''\<rparr>"

definition bad_url_record :: "raw_descriptor raw_model_record" where
  "bad_url_record = example_record
     \<lparr>raw_config := Some [(''files'', [Inl example_file]),
                          (''download'', [Inr bad_url_download])]\<rparr>"

text \<open>
  The example record with an empty showcase list, and the typed record the iterator yields
  for the example record.
\<close>

definition undeclared_record :: "raw_descriptor raw_model_record" where
  "undeclared_record = example_record\<lparr>raw_showcases := Some []\<rparr>"

definition example_yielded :: Legacy_StableDiffusion_ModelRecord where
  "example_yielded =
     \<lparr>r_name = ''demo'', r_type = ''ckpt'', r_baseline = ''stable diffusion 1'',
      r_style = ''generalist'', r_description = Some ''a model'', r_available = False,
      r_download_all = False, r_showcases = Some [''https://huggingface.co/old.png''],
      r_tags = Some [''anime''],
      r_config = Some [(''download'',
        [DownloadItem (example_download\<lparr>d_sha256sum := Some ''abc''\<rparr>)])]\<rparr>"

text \<open>
  Two records the iterator does not yield: one whose download names a file no file
  descriptor has, one whose file list holds a descriptor the file record class rejects.
\<close>

definition unmatched_record :: "raw_descriptor raw_model_record" where
  "unmatched_record = example_record
     \<lparr>raw_config := Some [(''files'', [Inl example_file]),
                          (''download'',
                           [Inr (example_download\<lparr>d_file_name := Some ''other.ckpt''\<rparr>)])]\<rparr>"

definition invalid_record :: "raw_descriptor raw_model_record" where
  "invalid_record = example_record
     \<lparr>raw_config := Some [(''files'', [Inr example_download]),
                          (''download'', [Inr example_download])]\<rparr>"

text \<open>
  A record with two file descriptors and two downloads, one with its two config entries
  in the other order, and one whose first download has an empty URL.
\<close>

definition example_vae_file :: Legacy_Config_FileRecord where
  "example_vae_file = \<lparr>f_path = Some ''vae.ckpt'', f_sha256sum = Some ''def''\<rparr>"

definition example_vae_download :: Legacy_Config_DownloadRecord where
  "example_vae_download =
     \<lparr>d_file_name = Some ''vae.ckpt'', d_file_path = Some [],
      d_file_url = Some ''https://huggingface.co/vae'', d_sha256sum = None,
      d_known_slow_download = None\<rparr>"

definition two_download_record :: "raw_descriptor raw_model_record" where
  "two_download_record = example_record
     \<lparr>raw_config := Some [(''files'', [Inl example_yaml_file, Inl example_file,
                                        Inl example_vae_file]),
                          (''download'', [Inr example_download, Inr example_vae_download])]\<rparr>"

definition download_first_record :: "raw_descriptor raw_model_record" where
  "download_first_record = example_record
     \<lparr>raw_config := Some [(''download'', [Inr example_download]),
                          (''files'', [Inl example_file])]\<rparr>"

definition empty_url_record :: "raw_descriptor raw_model_record" where
  "empty_url_record = example_record
     \<lparr>raw_config := Some [(''files'', [Inl example_file]),
                          (''download'', [Inr (example_download\<lparr>d_file_url := Some []\<rparr>),
                                          Inr example_download])]\<rparr>"

section \<open>Evaluation\<close>

text \<open>The equations that unfold a run on a concrete input.\<close>

lemmas example_defs =
  example_schema_def rejecting_schema_def example_env_def example_netloc_def
  example_converter_def
  example_file_def example_yaml_file_def example_download_def example_record_def
  bad_url_download_def bad_url_record_def undeclared_record_def example_yielded_def
  unmatched_record_def invalid_record_def example_vae_file_def example_vae_download_def
  two_download_record_def download_first_record_def empty_url_record_def
  initial_state_def

lemmas run_defs =
  normalize_and_convert_def iterate_record_def on_record_exception_def Let_def
  empty_locals_def sha_lookup_get_def modelrecord_type_def normalize_and_convert_body_def
  generic_record_sanity_checks_def store_record_def create_showcase_folder_def
  reconcile_showcases_def add_validation_error_to_log_def
  normalize_and_convert_config_entries_def count_up_def empty_aggregates_def finish_run_def
  print_summary_def py_print_def build_model_reference_def convert_legacy_baseline_def
  expected_github_location_def

section \<open>Frame lemmas: what leaves the output file alone\<close>

text \<open>
  Only the last step of \<^const>\<open>finish_run\<close> appends to \<^const>\<open>written\<close>; logging,
  printing, storing a record and creating a folder do not.
\<close>

lemma written_add_log [simp]: "written (add_validation_error_to_log self k e s) = written s"
  by (simp add: add_validation_error_to_log_def Let_def)
lemma written_py_print [simp]: "written (py_print l s) = written s"
  by (simp add: py_print_def)
lemma written_store_record [simp]: "written (store_record k r s) = written s"
  by (simp add: store_record_def)
lemma written_create_showcase_folder [simp]: "written (create_showcase_folder f s) = written s"
  by (simp add: create_showcase_folder_def)
lemma written_generic_record_sanity_checks [simp]:
  "written (generic_record_sanity_checks self k r s) = written s"
  by (simp add: generic_record_sanity_checks_def Let_def)
lemma written_reconcile_showcases [simp]:
  "written (snd (reconcile_showcases E self ex k f r s)) = written s"
  by (simp add: reconcile_showcases_def Let_def split: option.splits)
text \<open>
  The config checker only prints: any projection of the state that printing leaves alone
  is the same before and after.
\<close>

lemma check_files_frame:
  assumes p: "\<And>l t. f (py_print l t) = f t"
  shows "check_files k items s = (r, s') \<Longrightarrow> f s' = f s"
proof (induction items arbitrary: s r s')
  case Nil
  then show ?case by simp
next
  case (Cons item rest)
  from Cons.prems show ?case
    by (auto simp: Let_def p split: config_item.splits option.splits if_splits
          dest!: Cons.IH)
qed

lemma check_downloads_frame:
  assumes p: "\<And>l t. f (py_print l t) = f t"
  shows "check_downloads E k items h s = (r, s') \<Longrightarrow> f s' = f s"
proof (induction items arbitrary: h s r s')
  case Nil
  then show ?case by auto
next
  case (Cons item rest)
  from Cons.prems show ?case
    by (auto simp: Let_def p split: config_item.splits option.splits if_splits sum.splits
          prod.splits dest!: Cons.IH)
qed

lemma check_config_entries_frame:
  assumes p: "\<And>l t. f (py_print l t) = f t"
  shows "check_config_entries E k es h s = (r, s') \<Longrightarrow> f s' = f s"
proof (induction es arbitrary: h s r s')
  case Nil
  then show ?case by auto
next
  case (Cons e rest)
  obtain ck obj where e: "e = (ck, obj)" by (cases e)
  from Cons.prems show ?case unfolding e
    by (auto simp: Let_def split: option.splits if_splits prod.splits
          dest!: Cons.IH check_files_frame [of f, OF p] check_downloads_frame [of f, OF p])
qed

lemma written_check_config_entries_eq:
  "check_config_entries E k es h s = (r, s') \<Longrightarrow> written s' = written s"
  by (rule check_config_entries_frame) simp

lemma checker_keeps_log:
  "normalize_and_convert_config_entries E k es s = (r, s')
    \<Longrightarrow> all_validation_errors_log s' = all_validation_errors_log s"
  unfolding normalize_and_convert_config_entries_def
  by (rule check_config_entries_frame) (simp add: py_print_def)

lemma checker_keeps_records:
  "normalize_and_convert_config_entries E k es s = (r, s')
    \<Longrightarrow> all_model_records s' = all_model_records s"
  unfolding normalize_and_convert_config_entries_def
  by (rule check_config_entries_frame) (simp add: py_print_def)

lemma written_reconcile_showcases_eq:
  "reconcile_showcases E self ex k f r s = (res, s') \<Longrightarrow> written s' = written s"
  using written_reconcile_showcases [of E self ex k f r s] by simp

lemma written_body_eq:
  "normalize_and_convert_body E self ex k r agg s = (res, s') \<Longrightarrow> written s' = written s"
  unfolding normalize_and_convert_body_def normalize_and_convert_config_entries_def
  by (auto simp: Let_def split: prod.splits sum.splits option.splits
        dest!: written_check_config_entries_eq written_reconcile_showcases_eq)

lemma written_on_record_exception_eq:
  "on_record_exception self k e s = (res, s') \<Longrightarrow> written s' = written s"
  by (cases e) (auto simp: on_record_exception_def)

lemma written_iterate_record_eq:
  "iterate_record sch self k c s = (res, s') \<Longrightarrow> written s' = written s"
  unfolding iterate_record_def
  by (auto simp: Let_def split: option.splits sum.splits if_splits
        dest!: written_on_record_exception_eq)

lemma written_stream_records_eq:
  "stream_records sch E self ex recs agg s = (res, s') \<Longrightarrow> written s' = written s"
proof (induction recs arbitrary: agg s res s')
  case Nil
  then show ?case by simp
next
  case (Cons x rest)
  obtain k c where x: "x = (k, c)" by (cases x)
  from Cons.prems show ?case unfolding x
    by (auto split: prod.splits sum.splits option.splits
          dest!: Cons.IH written_iterate_record_eq written_body_eq)
qed

lemma written_check_empty_folders [simp]:
  "written (check_empty_folders E self fs s) = written s"
  by (induction fs arbitrary: s) simp_all

lemma written_check_orphan_folders [simp]:
  "written (check_orphan_folders self ex fs s) = written s"
  by (induction fs arbitrary: s) simp_all

lemma written_print_summary [simp]: "written (print_summary E agg n s) = written s"
  by (simp add: print_summary_def)

lemma records_py_print [simp]: "all_model_records (py_print l s) = all_model_records s"
  by (simp add: py_print_def)

section \<open>The final validation\<close>

lemma finish_run_cases:
  assumes "finish_run sch E self agg s = (res, s')"
  shows "(\<exists>msg. target_schema_error sch (reference_json E (build_model_reference agg s')) = Some msg
            \<and> res = Inl (ValidationError msg) \<and> written s' = written s)
       \<or> (target_schema_error sch (reference_json E (build_model_reference agg s')) = None
            \<and> res = Inr True
            \<and> written s' = written s @ [reference_json E (build_model_reference agg s')])"
  using assms unfolding finish_run_def
  by (auto simp: Let_def build_model_reference_def split: option.splits)

section \<open>The iterator's loops\<close>

lemma iterate_files_inv:
  "iterate_files sch files L = Inr L' \<Longrightarrow> set files \<subseteq> F \<Longrightarrow> table_from sch F L
    \<Longrightarrow> table_from sch F L'
        \<and> new_record_config_download_list L' = new_record_config_download_list L"
proof (induction files arbitrary: L)
  case Nil
  then show ?case by simp
next
  case (Cons j rest)
  from Cons.prems(1) obtain f p where pf: "parse_file_record sch j = Inr f" and fp: "f_path f = Some p"
    by (auto split: sum.splits option.splits)
  show ?case
  proof (cases "str_contains ''.yaml'' p")
    case True
    with Cons.prems pf fp have "iterate_files sch rest L = Inr L'" by simp
    from Cons.IH [OF this] Cons.prems show ?thesis by simp
  next
    case False
    let ?L1 = "L\<lparr>sha_lookup := AList.update p (f_sha256sum f) (sha_lookup L),
                    new_record_config_files_list := new_record_config_files_list L
                      @ [f\<lparr>f_sha256sum := None\<rparr>]\<rparr>"
    from Cons.prems pf fp False have step: "iterate_files sch rest ?L1 = Inr L'" by simp
    have "file_descriptor sch j p (f_sha256sum f)"
      using pf fp by (simp add: file_descriptor_def)
    moreover have "j \<in> F" using Cons.prems(2) by simp
    ultimately have "table_from sch F ?L1"
      using Cons.prems(3) False by (auto simp: table_from_def update_conv')
    from Cons.IH [OF step _ this] Cons.prems(2) show ?thesis by simp
  qed
qed

lemma iterate_downloads_inv:
  "iterate_downloads sch ds L = Inr L' \<Longrightarrow> table_from sch F L \<Longrightarrow> downloads_from sch F L
    \<Longrightarrow> downloads_from sch F L' \<and> sha_lookup L' = sha_lookup L"
proof (induction ds arbitrary: L)
  case Nil
  then show ?case by simp
next
  case (Cons j rest)
  from Cons.prems(1) obtain d v where pd: "parse_download_record sch j = Inr d"
    and lk: "sha_lookup_get (sha_lookup L) (d_file_name d) = Inr v"
    by (auto split: sum.splits)
  let ?L1 = "L\<lparr>new_record_config_download_list := new_record_config_download_list L
                     @ [d\<lparr>d_sha256sum := v\<rparr>]\<rparr>"
  from Cons.prems(1) pd lk have step: "iterate_downloads sch rest ?L1 = Inr L'" by simp
  from lk obtain n where n: "d_file_name d = Some n" "map_of (sha_lookup L) n = Some v"
    by (auto simp: sha_lookup_get_def split: option.splits)
  with Cons.prems(2) have "\<not> str_contains ''.yaml'' n \<and> (\<exists>j\<in>F. file_descriptor sch j n v)"
    by (simp add: table_from_def)
  with Cons.prems(3) n have "downloads_from sch F ?L1"
    by (auto simp: downloads_from_def)
  moreover have "table_from sch F ?L1" using Cons.prems(2) by (simp add: table_from_def)
  ultimately show ?case using Cons.IH [OF step] by simp
qed

lemma config_files_Cons:
  "config_files ((k, v) # rest) = (if k = ''files'' then v @ config_files rest else config_files rest)"
  by (simp add: config_files_def)

lemma iterate_config_inv:
  "iterate_config sch cfg L = Inr L' \<Longrightarrow> set (config_files cfg) \<subseteq> F \<Longrightarrow> table_from sch F L
    \<Longrightarrow> downloads_from sch F L \<Longrightarrow> table_from sch F L' \<and> downloads_from sch F L'"
proof (induction cfg arbitrary: L)
  case Nil
  then show ?case by simp
next
  case (Cons entry rest)
  obtain k v where entry: "entry = (k, v)" by (cases entry)
  have restF: "set (config_files rest) \<subseteq> F"
    using Cons.prems(2) entry by (simp add: config_files_Cons split: if_splits)
  show ?case
  proof (cases "k = ''files''")
    case True
    with Cons.prems(1) entry obtain L1 where f: "iterate_files sch v L = Inr L1"
      and r: "iterate_config sch rest L1 = Inr L'"
      by (auto split: sum.splits)
    have "set v \<subseteq> F" using Cons.prems(2) entry True by (simp add: config_files_Cons)
    from iterate_files_inv [OF f this Cons.prems(3)] Cons.prems(4)
    have "table_from sch F L1" "downloads_from sch F L1"
      by (simp_all add: downloads_from_def)
    from Cons.IH [OF r restF this] show ?thesis .
  next
    case nf: False
    show ?thesis
    proof (cases "k = ''download''")
      case True
      with Cons.prems(1) entry nf obtain L1 where d: "iterate_downloads sch v L = Inr L1"
        and r: "iterate_config sch rest L1 = Inr L'"
        by (auto split: sum.splits)
      from iterate_downloads_inv [OF d Cons.prems(3,4)] Cons.prems(3)
      have "table_from sch F L1" "downloads_from sch F L1"
        by (simp_all add: table_from_def)
      from Cons.IH [OF r restF this] show ?thesis .
    next
      case False
      with Cons.prems(1) entry nf have "iterate_config sch rest L = Inr L'" by simp
      from Cons.IH [OF this restF Cons.prems(3,4)] show ?thesis .
    qed
  qed
qed

lemma iterate_record_yields:
  assumes "fst (iterate_record sch self key contents s) = Inr (Some r)"
  obtains cfg L where "raw_config contents = Some cfg"
    and "iterate_config sch cfg empty_locals = Inr L"
    and "r_config r = Some [(''download'', map DownloadItem (new_record_config_download_list L))]"
proof -
  from assms obtain cfg where c: "raw_config contents = Some cfg"
    by (auto simp: iterate_record_def split: option.splits)
  have ore: "\<And>e s0. fst (on_record_exception self key e s0) \<noteq> Inr (Some r)"
    by (simp add: on_record_exception_def split: exn.splits)
  from assms c ore obtain L where L: "iterate_config sch cfg empty_locals = Inr L"
    by (auto simp: iterate_record_def Let_def split: sum.splits)
  from assms c L ore
  have "modelrecord_type sch contents
          [(''download'', map DownloadItem (new_record_config_download_list L))] = Inr r"
    by (auto simp: iterate_record_def Let_def split: sum.splits)
  then have "r_config r = Some [(''download'', map DownloadItem (new_record_config_download_list L))]"
    by (auto simp: modelrecord_type_def split: option.splits)
  with c L that show thesis by blast
qed

lemma table_from_empty: "table_from sch F empty_locals" "downloads_from sch F empty_locals"
  by (simp_all add: table_from_def downloads_from_def empty_locals_def)

text \<open>
  On a well-formed config that lists the file descriptors before the downloads, neither
  loop raises: every lookup finds its key.
\<close>

lemma iterate_files_total:
  assumes "\<forall>j\<in>set files. \<exists>f p. parse_file_record sch j = Inr f \<and> f_path f = Some p"
  shows "\<exists>L'. iterate_files sch files L = Inr L'
           \<and> new_record_config_download_list L' = new_record_config_download_list L
           \<and> (\<forall>n. (map_of (sha_lookup L) n \<noteq> None
                     \<or> (\<not> str_contains ''.yaml'' n
                         \<and> (\<exists>j\<in>set files. \<exists>c. file_descriptor sch j n c)))
                  \<longrightarrow> map_of (sha_lookup L') n \<noteq> None)"
  using assms
proof (induction files arbitrary: L)
  case Nil
  then show ?case by simp
next
  case (Cons j rest)
  from Cons.prems obtain f p where pf: "parse_file_record sch j = Inr f" "f_path f = Some p"
    by auto
  from Cons.prems have rest: "\<forall>j\<in>set rest. \<exists>f p. parse_file_record sch j = Inr f \<and> f_path f = Some p"
    by simp
  have fd: "\<And>n c. file_descriptor sch j n c \<Longrightarrow> n = p"
    using pf by (simp add: file_descriptor_def)
  have step_yaml: "str_contains ''.yaml'' p \<Longrightarrow> iterate_files sch (j # rest) L = iterate_files sch rest L"
    using pf by simp
  let ?L1 = "L\<lparr>sha_lookup := AList.update p (f_sha256sum f) (sha_lookup L),
                  new_record_config_files_list := new_record_config_files_list L
                    @ [f\<lparr>f_sha256sum := None\<rparr>]\<rparr>"
  have step_file: "\<not> str_contains ''.yaml'' p \<Longrightarrow> iterate_files sch (j # rest) L = iterate_files sch rest ?L1"
    using pf by simp
  have grown: "map_of (sha_lookup L) n \<noteq> None \<Longrightarrow> map_of (sha_lookup ?L1) n \<noteq> None" for n
    by (simp add: update_conv')
  have added: "map_of (sha_lookup ?L1) p \<noteq> None"
    by (simp add: update_conv')
  show ?case
  proof (cases "str_contains ''.yaml'' p")
    case True
    from Cons.IH [OF rest, of L] obtain L' where L': "iterate_files sch rest L = Inr L'"
      and dl: "new_record_config_download_list L' = new_record_config_download_list L"
      and tb: "\<And>n. map_of (sha_lookup L) n \<noteq> None
                     \<or> (\<not> str_contains ''.yaml'' n
                         \<and> (\<exists>j\<in>set rest. \<exists>c. file_descriptor sch j n c))
                  \<Longrightarrow> map_of (sha_lookup L') n \<noteq> None"
      by blast
    have "map_of (sha_lookup L') n \<noteq> None"
      if "map_of (sha_lookup L) n \<noteq> None
            \<or> (\<not> str_contains ''.yaml'' n
                \<and> (\<exists>j\<in>set (j # rest). \<exists>c. file_descriptor sch j n c))" for n
    proof -
      from that True fd have "map_of (sha_lookup L) n \<noteq> None
            \<or> (\<not> str_contains ''.yaml'' n
                \<and> (\<exists>j\<in>set rest. \<exists>c. file_descriptor sch j n c))"
        by auto
      then show ?thesis by (rule tb)
    qed
    with L' dl step_yaml [OF True] show ?thesis by auto
  next
    case False
    from Cons.IH [OF rest, of ?L1] obtain L' where L': "iterate_files sch rest ?L1 = Inr L'"
      and dl: "new_record_config_download_list L' = new_record_config_download_list ?L1"
      and tb: "\<And>n. map_of (sha_lookup ?L1) n \<noteq> None
                     \<or> (\<not> str_contains ''.yaml'' n
                         \<and> (\<exists>j\<in>set rest. \<exists>c. file_descriptor sch j n c))
                  \<Longrightarrow> map_of (sha_lookup L') n \<noteq> None"
      by blast
    have "map_of (sha_lookup L') n \<noteq> None"
      if "map_of (sha_lookup L) n \<noteq> None
            \<or> (\<not> str_contains ''.yaml'' n
                \<and> (\<exists>j\<in>set (j # rest). \<exists>c. file_descriptor sch j n c))" for n
    proof -
      from that fd grown [of n] added have "map_of (sha_lookup ?L1) n \<noteq> None
            \<or> (\<not> str_contains ''.yaml'' n
                \<and> (\<exists>j\<in>set rest. \<exists>c. file_descriptor sch j n c))"
        by auto
      then show ?thesis by (rule tb)
    qed
    moreover from dl have "new_record_config_download_list L' = new_record_config_download_list L"
      by simp
    ultimately show ?thesis using L' step_file [OF False] by auto
  qed
qed

lemma iterate_downloads_total:
  assumes "\<forall>j\<in>set downloads. \<exists>d n. parse_download_record sch j = Inr d
            \<and> d_file_name d = Some n \<and> map_of (sha_lookup L) n \<noteq> None"
  shows "\<exists>L'. iterate_downloads sch downloads L = Inr L'"
  using assms
proof (induction downloads arbitrary: L)
  case Nil
  then show ?case by simp
next
  case (Cons j rest)
  from Cons.prems obtain d n v where d: "parse_download_record sch j = Inr d"
    "d_file_name d = Some n" "map_of (sha_lookup L) n = Some v"
    by auto
  let ?L1 = "L\<lparr>new_record_config_download_list := new_record_config_download_list L
                     @ [d\<lparr>d_sha256sum := v\<rparr>]\<rparr>"
  from d have step: "iterate_downloads sch (j # rest) L = iterate_downloads sch rest ?L1"
    by (simp add: sha_lookup_get_def)
  from Cons.prems have "\<forall>j\<in>set rest. \<exists>d n. parse_download_record sch j = Inr d
            \<and> d_file_name d = Some n \<and> map_of (sha_lookup ?L1) n \<noteq> None"
    by simp
  from Cons.IH [OF this] step show ?case by simp
qed

lemma well_formed_config_yields:
  assumes wf: "well_formed_config sch files downloads"
    and cfg: "raw_config contents = Some [(''files'', files), (''download'', downloads)]"
    and ok: "\<forall>c. record_schema_error sch (contents\<lparr>raw_config := None\<rparr>) c = None"
  shows "\<exists>r. fst (iterate_record sch self key contents s) = Inr (Some r)"
proof -
  from wf have f: "\<forall>j\<in>set files. \<exists>f p. parse_file_record sch j = Inr f \<and> f_path f = Some p"
    by (simp add: well_formed_config_def)
  from iterate_files_total [OF f, of empty_locals] obtain L1 where
    L1: "iterate_files sch files empty_locals = Inr L1"
    and tb: "\<And>n. \<not> str_contains ''.yaml'' n
                         \<and> (\<exists>j\<in>set files. \<exists>c. file_descriptor sch j n c)
                  \<Longrightarrow> map_of (sha_lookup L1) n \<noteq> None"
    by blast
  have "\<forall>j\<in>set downloads. \<exists>d n. parse_download_record sch j = Inr d
            \<and> d_file_name d = Some n \<and> map_of (sha_lookup L1) n \<noteq> None"
  proof
    fix j assume "j \<in> set downloads"
    with wf obtain d n where "parse_download_record sch j = Inr d" "d_file_name d = Some n"
      "\<not> str_contains ''.yaml'' n" "\<exists>j'\<in>set files. \<exists>c. file_descriptor sch j' n c"
      unfolding well_formed_config_def by blast
    with tb [of n] show "\<exists>d n. parse_download_record sch j = Inr d
            \<and> d_file_name d = Some n \<and> map_of (sha_lookup L1) n \<noteq> None"
      by blast
  qed
  from iterate_downloads_total [OF this] obtain L2 where
    L2: "iterate_downloads sch downloads L1 = Inr L2" ..
  from L1 L2 have "iterate_config sch [(''files'', files), (''download'', downloads)] empty_locals
      = Inr L2"
    by simp
  with cfg ok show ?thesis
    by (simp add: iterate_record_def modelrecord_type_def Let_def)
qed

section \<open>The checksum table and the transfer\<close>





lemma file_checksum_found:
  "j \<in> set files \<Longrightarrow> file_descriptor sch j n c \<Longrightarrow> file_checksum sch files n \<noteq> None"
  by (induction files)
     (auto simp: file_descriptor_def descriptor_checksum_def split: sum.splits option.splits)



section \<open>The config checker on download descriptors\<close>

lemma check_downloads_typed:
  "check_downloads E k (map DownloadItem ds) h s = ((res, items', h'), s')
   \<Longrightarrow> (\<exists>ds'. items' = map DownloadItem ds')
      \<and> (\<exists>out. stdout s' = stdout s @ out \<and> set out \<subseteq> download_findings k)
      \<and> (case res of None \<Rightarrow> True
          | Some e \<Rightarrow> \<exists>d\<in>set ds. \<exists>u. d_file_url d = Some u \<and> u \<noteq> []
                        \<and> urlparse_netloc E u = Inl e)"
proof (induction ds arbitrary: h s res items' h' s')
  case Nil
  then show ?case by auto
next
  case (Cons d rest)
  let ?s1 = "if d_file_name d = None \<or> d_file_name d = Some []
             then py_print (k @ '' has a download with no file_name.'') s else s"
  let ?s2 = "if d_file_path d = None \<or> d_file_path d \<noteq> Some []
             then py_print (k @ '' has a download with a file_path.'') ?s1 else ?s1"
  have out2: "\<exists>out. stdout ?s2 = stdout s @ out \<and> set out \<subseteq> download_findings k"
    by (auto simp: py_print_def download_findings_def)
  then obtain out2 where o2: "stdout ?s2 = stdout s @ out2" "set out2 \<subseteq> download_findings k"
    by blast
  show ?case
  proof (cases "d_file_url d = None \<or> d_file_url d = Some []")
    case True
    let ?s3 = "py_print (k @ '' has a download with no file_url.'') ?s2"
    obtain r1 it1 h1 t1 where rec: "check_downloads E k (map DownloadItem rest) h ?s3 = ((r1, it1, h1), t1)"
      by (metis prod_cases3 surj_pair)
    from Cons.prems True rec have eqs: "res = r1" "items' = DownloadItem d # it1" "s' = t1"
      by (auto simp: Let_def)
    from Cons.IH [OF rec] obtain ds' out where ih: "it1 = map DownloadItem ds'"
      "stdout t1 = stdout ?s3 @ out" "set out \<subseteq> download_findings k"
      and ex: "case r1 of None \<Rightarrow> True
          | Some e \<Rightarrow> \<exists>d\<in>set rest. \<exists>u. d_file_url d = Some u \<and> u \<noteq> []
                        \<and> urlparse_netloc E u = Inl e"
      by blast
    have "items' = map DownloadItem (d # ds')" using eqs ih by simp
    moreover have "stdout s' = stdout s @ (out2 @ [k @ '' has a download with no file_url.''] @ out)"
      using eqs ih o2 by (simp add: py_print_def)
    moreover have "set (out2 @ [k @ '' has a download with no file_url.''] @ out) \<subseteq> download_findings k"
      using ih o2 by (simp add: download_findings_def)
    moreover have "case res of None \<Rightarrow> True
          | Some e \<Rightarrow> \<exists>d\<in>set (d # rest). \<exists>u. d_file_url d = Some u \<and> u \<noteq> []
                        \<and> urlparse_netloc E u = Inl e"
      using ex eqs by (auto split: option.splits)
    ultimately show ?thesis by blast
  next
    case False
    then obtain u where u: "d_file_url d = Some u" "u \<noteq> []" by (cases "d_file_url d") auto
    let ?d' = "if str_contains ''civitai'' u then d\<lparr>d_known_slow_download := Some True\<rparr> else d"
    show ?thesis
    proof (cases "urlparse_netloc E u")
      case (Inl e)
      with Cons.prems u have eqs: "res = Some e" "items' = DownloadItem ?d' # map DownloadItem rest"
        "s' = py_print (k @ '' has a download with an invalid file_url.'') ?s2"
        by (auto simp: Let_def)
      have "items' = map DownloadItem (?d' # rest)" using eqs by simp
      moreover have "stdout s' = stdout s @ (out2 @ [k @ '' has a download with an invalid file_url.''])"
        using eqs o2 by (simp add: py_print_def)
      moreover have "set (out2 @ [k @ '' has a download with an invalid file_url.'']) \<subseteq> download_findings k"
        using o2 by (simp add: download_findings_def)
      moreover have "case res of None \<Rightarrow> True
          | Some e \<Rightarrow> \<exists>d\<in>set (d # rest). \<exists>u. d_file_url d = Some u \<and> u \<noteq> []
                        \<and> urlparse_netloc E u = Inl e"
        using eqs u Inl by auto
      ultimately show ?thesis by blast
    next
      case (Inr host)
      obtain r1 it1 h1 t1 where rec: "check_downloads E k (map DownloadItem rest) (count_up host h) ?s2 = ((r1, it1, h1), t1)"
        by (metis prod_cases3 surj_pair)
      from Cons.prems u Inr rec have eqs: "res = r1" "items' = DownloadItem ?d' # it1" "s' = t1"
        by (auto simp: Let_def)
      from Cons.IH [OF rec] obtain ds' out where ih: "it1 = map DownloadItem ds'"
        "stdout t1 = stdout ?s2 @ out" "set out \<subseteq> download_findings k"
        and ex: "case r1 of None \<Rightarrow> True
          | Some e \<Rightarrow> \<exists>d\<in>set rest. \<exists>u. d_file_url d = Some u \<and> u \<noteq> []
                        \<and> urlparse_netloc E u = Inl e"
        by blast
      have "items' = map DownloadItem (?d' # ds')" using eqs ih by simp
      moreover have "stdout s' = stdout s @ (out2 @ out)" using eqs ih o2 by simp
      moreover have "set (out2 @ out) \<subseteq> download_findings k" using ih o2 by simp
      moreover have "case res of None \<Rightarrow> True
          | Some e \<Rightarrow> \<exists>d\<in>set (d # rest). \<exists>u. d_file_url d = Some u \<and> u \<noteq> []
                        \<and> urlparse_netloc E u = Inl e"
        using ex eqs by (auto split: option.splits)
      ultimately show ?thesis by blast
    qed
  qed
qed

lemma findings_disjoint: "download_findings k \<inter> guarded_findings k = {}"
  by (simp add: download_findings_def guarded_findings_def)

section \<open>The download loop of the config checker\<close>

text \<open>One step of the loop, by the three cases of the URL of the descriptor at its head.\<close>

lemma check_downloads_skip_step:
  assumes "d_file_url d = None \<or> d_file_url d = Some []"
  shows "\<exists>s2. check_downloads E k (DownloadItem d # rest) h s =
            (case check_downloads E k rest h s2 of
               ((r, rest', hosts'), s') \<Rightarrow> ((r, DownloadItem d # rest', hosts'), s'))"
  using assms by (simp add: Let_def) blast

lemma check_downloads_host_step:
  assumes "d_file_url d = Some u" "u \<noteq> []" "urlparse_netloc E u = Inr host"
  shows "\<exists>s2 d'. check_downloads E k (DownloadItem d # rest) h s =
            (case check_downloads E k rest (count_up host h) s2 of
               ((r, rest', hosts'), s') \<Rightarrow> ((r, DownloadItem d' # rest', hosts'), s'))"
  using assms by (simp add: Let_def) blast

lemma check_downloads_fail_step:
  assumes "d_file_url d = Some u" "u \<noteq> []" "urlparse_netloc E u = Inl e"
  shows "\<exists>s2 d'. check_downloads E k (DownloadItem d # rest) h s =
            ((Some e, DownloadItem d' # rest, h), s2)"
  using assms by (simp add: Let_def)


lemma download_outcome_Nil [simp]: "download_outcome E k [] h s = (None, h)"
  by (simp add: download_outcome_def)

lemma download_outcome_file [simp]:
  "download_outcome E k (FileItem f # rest) h s =
     (Some (TypeError ''Expected `Legacy_Config_DownloadRecord`.''), h)"
  by (simp add: download_outcome_def)

lemma download_outcome_skip_step:
  assumes "d_file_url d = None \<or> d_file_url d = Some []"
  shows "\<exists>s2. download_outcome E k (DownloadItem d # rest) h s = download_outcome E k rest h s2"
proof -
  from check_downloads_skip_step [OF assms, of E k rest h s] obtain s2 where
    "check_downloads E k (DownloadItem d # rest) h s =
            (case check_downloads E k rest h s2 of
               ((r, rest', hosts'), s') \<Rightarrow> ((r, DownloadItem d # rest', hosts'), s'))" ..
  then have "download_outcome E k (DownloadItem d # rest) h s = download_outcome E k rest h s2"
    unfolding download_outcome_def by (simp split: prod.splits)
  then show ?thesis ..
qed

lemma download_outcome_host_step:
  assumes "d_file_url d = Some u" "u \<noteq> []" "urlparse_netloc E u = Inr host"
  shows "\<exists>s2. download_outcome E k (DownloadItem d # rest) h s
           = download_outcome E k rest (count_up host h) s2"
proof -
  from check_downloads_host_step [OF assms, of k rest h s] obtain s2 d' where
    "check_downloads E k (DownloadItem d # rest) h s =
            (case check_downloads E k rest (count_up host h) s2 of
               ((r, rest', hosts'), s') \<Rightarrow> ((r, DownloadItem d' # rest', hosts'), s'))"
    by blast
  then have "download_outcome E k (DownloadItem d # rest) h s
      = download_outcome E k rest (count_up host h) s2"
    unfolding download_outcome_def by (simp split: prod.splits)
  then show ?thesis ..
qed

lemma download_outcome_fail_step:
  assumes "d_file_url d = Some u" "u \<noteq> []" "urlparse_netloc E u = Inl e"
  shows "download_outcome E k (DownloadItem d # rest) h s = (Some e, h)"
proof -
  from check_downloads_fail_step [OF assms, of k rest h s] obtain s2 d' where
    "check_downloads E k (DownloadItem d # rest) h s = ((Some e, DownloadItem d' # rest, h), s2)"
    by blast
  then show ?thesis by (simp add: download_outcome_def)
qed

lemma download_url_cases:
  obtains (empty) "d_file_url d = None \<or> d_file_url d = Some []"
  | (fail) u e where "d_file_url d = Some u" "u \<noteq> []" "urlparse_netloc E u = Inl e"
  | (host) u host where "d_file_url d = Some u" "u \<noteq> []" "urlparse_netloc E u = Inr host"
proof (cases "d_file_url d")
  case None
  then show ?thesis using empty by simp
next
  case (Some u)
  show ?thesis
  proof (cases "u = []")
    case True
    with Some show ?thesis using empty by simp
  next
    case False
    with Some show ?thesis using fail host by (cases "urlparse_netloc E u") auto
  qed
qed

lemma download_outcome_state_indep:
  "download_outcome E k items h s = download_outcome E k items h s'"
proof (induction items arbitrary: h s s')
  case Nil
  show ?case by simp
next
  case (Cons item rest)
  show ?case
  proof (cases item)
    case (FileItem f)
    then show ?thesis by simp
  next
    case (DownloadItem d)
    show ?thesis
    proof (cases d rule: download_url_cases [where E = E])
      case empty
      from download_outcome_skip_step [OF empty, of E k rest h s]
        download_outcome_skip_step [OF empty, of E k rest h s']
      show ?thesis unfolding DownloadItem using Cons.IH by metis
    next
      case (fail u e)
      then show ?thesis unfolding DownloadItem by (simp add: download_outcome_fail_step)
    next
      case (host u host)
      from download_outcome_host_step [OF host, of k rest h s]
        download_outcome_host_step [OF host, of k rest h s']
      show ?thesis unfolding DownloadItem using Cons.IH by metis
    qed
  qed
qed

lemma download_outcome_skip:
  assumes "d_file_url d = None \<or> d_file_url d = Some []"
  shows "download_outcome E k (pre @ DownloadItem d # post) h s
           = download_outcome E k (pre @ post) h s"
proof (induction pre arbitrary: h s)
  case Nil
  from download_outcome_skip_step [OF assms, of E k post h s]
  show ?case using download_outcome_state_indep by (metis append_Nil)
next
  case (Cons item pre)
  show ?case
  proof (cases item)
    case (FileItem f)
    then show ?thesis by simp
  next
    case (DownloadItem d0)
    show ?thesis
    proof (cases d0 rule: download_url_cases [where E = E])
      case empty
      from download_outcome_skip_step [OF empty, of E k "pre @ DownloadItem d # post" h s]
        download_outcome_skip_step [OF empty, of E k "pre @ post" h s]
      show ?thesis unfolding DownloadItem using Cons.IH download_outcome_state_indep
        by (metis append_Cons)
    next
      case (fail u e)
      then show ?thesis unfolding DownloadItem by (simp add: download_outcome_fail_step)
    next
      case (host u host)
      from download_outcome_host_step [OF host, of k "pre @ DownloadItem d # post" h s]
        download_outcome_host_step [OF host, of k "pre @ post" h s]
      show ?thesis unfolding DownloadItem using Cons.IH download_outcome_state_indep
        by (metis append_Cons)
    qed
  qed
qed

lemma download_outcome_raises:
  assumes "DownloadItem d \<in> set items" "d_file_url d = Some u" "u \<noteq> []"
    "urlparse_netloc E u = Inl e"
  shows "fst (download_outcome E k items h s) \<noteq> None"
  using assms(1)
proof (induction items arbitrary: h s)
  case Nil
  then show ?case by simp
next
  case (Cons item rest)
  show ?case
  proof (cases item)
    case (FileItem f)
    then show ?thesis by simp
  next
    case (DownloadItem d0)
    show ?thesis
    proof (cases d0 rule: download_url_cases [where E = E])
      case empty
      with assms(2,3) have "d0 \<noteq> d" by auto
      with Cons.prems DownloadItem have "DownloadItem d \<in> set rest" by simp
      from Cons.IH [OF this] download_outcome_skip_step [OF empty, of E k rest h s]
      show ?thesis unfolding DownloadItem by metis
    next
      case (fail u e)
      then show ?thesis unfolding DownloadItem by (simp add: download_outcome_fail_step)
    next
      case (host u0 host)
      with assms(2,4) have "d0 \<noteq> d" by auto
      with Cons.prems DownloadItem have "DownloadItem d \<in> set rest" by simp
      from Cons.IH [OF this] download_outcome_host_step [OF host, of k rest h s]
      show ?thesis unfolding DownloadItem by metis
    qed
  qed
qed

section \<open>Exceptions that end the run\<close>

lemma iterate_record_state_indep:
  "fst (iterate_record sch self k c s) = fst (iterate_record sch self k c s')"
  by (simp add: iterate_record_def on_record_exception_def Let_def
        split: option.splits sum.splits exn.splits)

lemma reconcile_showcases_config:
  "reconcile_showcases E self ex k f r s = (Inr r', s') \<Longrightarrow> r_config r' = r_config r"
  by (auto simp: reconcile_showcases_def Let_def split: option.splits if_splits)

lemma check_config_entries_download_only:
  "check_config_entries E k [(''download'', items)] h s =
     (case check_downloads E k items h s of
        ((r, items', h1), s1) \<Rightarrow> ((r, [(''download'', items')], h1), s1))"
  by (simp split: prod.splits option.splits)

lemma body_raises:
  assumes cfg: "r_config r = Some [(''download'', items)]"
    and bad: "DownloadItem d \<in> set items" "d_file_url d = Some u" "u \<noteq> []"
      "urlparse_netloc E u = Inl e"
  shows "\<exists>e'. fst (normalize_and_convert_body E self ex k r agg s) = Inl e'"
proof -
  let ?r1 = "r\<lparr>r_baseline := convert_legacy_baseline (r_baseline r)\<rparr>"
  define s4 where "s4 = create_showcase_folder (model_name_to_showcase_folder_name E k)
     (store_record k ?r1
        (if r_type r \<noteq> ''ckpt''
         then add_validation_error_to_log self k (k @ '' is not a ckpt!'')
                (generic_record_sanity_checks self k r s)
         else generic_record_sanity_checks self k r s))"
  obtain rr s5 where rec: "reconcile_showcases E self ex k
      (model_name_to_showcase_folder_name E k) ?r1 s4 = (rr, s5)"
    by (cases "reconcile_showcases E self ex k (model_name_to_showcase_folder_name E k) ?r1 s4")
  show ?thesis
  proof (cases rr)
    case (Inl e0)
    with rec show ?thesis
      by (simp add: normalize_and_convert_body_def Let_def s4_def)
  next
    case (Inr r2)
    with rec have c2: "r_config r2 = Some [(''download'', items)]"
      using reconcile_showcases_config [of E self ex k _ ?r1 s4 r2 s5] cfg by simp
    define s6 where "s6 = (if length [(''download'', items)] = 0
       then add_validation_error_to_log self k (k @ '' has no config.'') s5 else s5)"
    obtain res items' h1 s7 where cd: "check_downloads E k items [] s6 = ((res, items', h1), s7)"
      by (metis prod_cases3 surj_pair)
    from download_outcome_raises [OF bad, of k "[]" s6] cd obtain e' where "res = Some e'"
      by (auto simp: download_outcome_def)
    with rec Inr c2 cd show ?thesis
      by (simp add: normalize_and_convert_body_def Let_def s4_def s6_def
            normalize_and_convert_config_entries_def check_config_entries_download_only)
  qed
qed

lemma stream_records_raises:
  assumes "(key, contents) \<in> set db"
    and "fst (iterate_record sch self key contents s0) = Inr (Some r)"
    and "r_config r = Some [(''download'', items)]"
    and "DownloadItem d \<in> set items" "d_file_url d = Some u" "u \<noteq> []"
      "urlparse_netloc E u = Inl e"
  shows "\<exists>e'. fst (stream_records sch E self ex db agg s) = Inl e'"
  using assms(1)
proof (induction db arbitrary: agg s)
  case Nil
  then show ?case by simp
next
  case (Cons x rest)
  obtain k c where x: "x = (k, c)" by (cases x)
  obtain ir s1 where it: "iterate_record sch self k c s = (ir, s1)"
    by (cases "iterate_record sch self k c s")
  show ?case
  proof (cases "x = (key, contents)")
    case True
    with x have kc: "k = key" "c = contents" by simp_all
    from it kc assms(2) iterate_record_state_indep [of sch self key contents s s0]
    have ir: "ir = Inr (Some r)" by simp
    from body_raises [OF assms(3-7), of self ex key agg s1]
    obtain e' where "fst (normalize_and_convert_body E self ex key r agg s1) = Inl e'" ..
    with it ir kc x show ?thesis by (auto split: prod.splits)
  next
    case False
    with Cons.prems have inrest: "(key, contents) \<in> set rest" by simp
    show ?thesis
    proof (cases ir)
      case (Inl e0)
      with it x show ?thesis by simp
    next
      case (Inr yielded)
      show ?thesis
      proof (cases yielded)
        case None
        with Inr it x Cons.IH [OF inrest] show ?thesis by simp
      next
        case (Some r0)
        obtain br s2 where b: "normalize_and_convert_body E self ex k r0 agg s1 = (br, s2)"
          by (cases "normalize_and_convert_body E self ex k r0 agg s1")
        show ?thesis
        proof (cases br)
          case (Inl e0)
          with Some Inr it x b show ?thesis by simp
        next
          case (Inr agg')
          with Some \<open>ir = Inr yielded\<close> it x b Cons.IH [OF inrest] show ?thesis by simp
        qed
      qed
    qed
  qed
qed

section \<open>Records the checker lets through\<close>

lemma download_outcome_no_raise:
  "\<forall>d\<in>set ds. url_does_not_raise E d
    \<Longrightarrow> fst (download_outcome E k (map DownloadItem ds) h s) = None"
proof (induction ds arbitrary: h s)
  case Nil
  show ?case by simp
next
  case (Cons d rest)
  then have rest: "\<forall>d\<in>set rest. url_does_not_raise E d" and ok: "url_does_not_raise E d"
    by simp_all
  show ?case
  proof (cases d rule: download_url_cases [where E = E])
    case empty
    from download_outcome_skip_step [OF empty, of E k "map DownloadItem rest" h s]
      Cons.IH [OF rest] show ?thesis by auto
  next
    case (fail u e)
    with ok show ?thesis by (simp add: url_does_not_raise_def)
  next
    case (host u host)
    from download_outcome_host_step [OF host, of k "map DownloadItem rest" h s]
      Cons.IH [OF rest] show ?thesis by auto
  qed
qed

lemma reconcile_no_raise:
  assumes "r_showcases r = None \<or> r_showcases r = Some [] \<or> map_of ex f \<noteq> None"
  shows "\<exists>r2 s5. reconcile_showcases E self ex k f r s = (Inr r2, s5)
           \<and> r_config r2 = r_config r \<and> r_tags r2 = r_tags r"
  using assms
  by (auto simp: reconcile_showcases_def Let_def split: option.splits)

lemma body_continues:
  assumes cfg: "r_config r = Some [(''download'', map DownloadItem ds)]"
    and ok: "\<forall>d\<in>set ds. url_does_not_raise E d"
    and sc: "r_showcases r = None \<or> r_showcases r = Some []
        \<or> map_of ex (model_name_to_showcase_folder_name E k) \<noteq> None"
  shows "\<exists>agg' s2. normalize_and_convert_body E self ex k r agg s = (Inr agg', s2)
     \<and> all_model_hosts agg'
        = fold count_up (map fst (snd (download_outcome E k (map DownloadItem ds) [] s0)))
            (all_model_hosts agg)"
proof -
  let ?r1 = "r\<lparr>r_baseline := convert_legacy_baseline (r_baseline r)\<rparr>"
  define s4 where "s4 = create_showcase_folder (model_name_to_showcase_folder_name E k)
     (store_record k ?r1
        (if r_type r \<noteq> ''ckpt''
         then add_validation_error_to_log self k (k @ '' is not a ckpt!'')
                (generic_record_sanity_checks self k r s)
         else generic_record_sanity_checks self k r s))"
  from sc have "r_showcases ?r1 = None \<or> r_showcases ?r1 = Some []
        \<or> map_of ex (model_name_to_showcase_folder_name E k) \<noteq> None" by simp
  from reconcile_no_raise [OF this, of E self k s4] cfg obtain r2 s5 where
    rec: "reconcile_showcases E self ex k (model_name_to_showcase_folder_name E k) ?r1 s4
        = (Inr r2, s5)"
    and c2: "r_config r2 = Some [(''download'', map DownloadItem ds)]"
    by auto
  define s6 where "s6 = (if length [(''download'', map DownloadItem ds)] = 0
       then add_validation_error_to_log self k (k @ '' has no config.'') s5 else s5)"
  obtain res items' h1 s7 where cd:
    "check_downloads E k (map DownloadItem ds) [] s6 = ((res, items', h1), s7)"
    by (metis prod_cases3 surj_pair)
  then have out: "download_outcome E k (map DownloadItem ds) [] s6 = (res, h1)"
    by (simp add: download_outcome_def)
  from download_outcome_no_raise [OF ok, of k "[]" s6] out have res: "res = None" by simp
  from out download_outcome_state_indep [of E k "map DownloadItem ds" "[]" s6 s0]
  have h1: "h1 = snd (download_outcome E k (map DownloadItem ds) [] s0)" by simp
  from rec c2 cd res h1 show ?thesis
    by (simp add: normalize_and_convert_body_def Let_def s4_def s6_def
          normalize_and_convert_config_entries_def check_config_entries_download_only
          split: option.splits)
qed

section \<open>Showcase reconciliation\<close>

lemma map_of_store_record [simp]:
  "map_of (all_model_records (store_record k r s)) k = Some r"
  by (simp add: store_record_def update_conv')

lemma records_add_log [simp]:
  "all_model_records (add_validation_error_to_log self k e s) = all_model_records s"
  by (simp add: add_validation_error_to_log_def Let_def)

lemma records_create_showcase_folder [simp]:
  "all_model_records (create_showcase_folder f s) = all_model_records s"
  by (simp add: create_showcase_folder_def)

lemma reconcile_declared:
  assumes "r_showcases r = Some declared" "declared \<noteq> []" "map_of ex f = Some files"
  shows "\<exists>s'. reconcile_showcases E self ex k f r s
            = (Inr (r\<lparr>r_showcases := Some (map (expected_github_location E f) files)\<rparr>), s')
          \<and> map_of (all_model_records s') k
            = Some (r\<lparr>r_showcases := Some (map (expected_github_location E f) files)\<rparr>)"
  using assms by (simp add: reconcile_showcases_def Let_def)

lemma reconcile_undeclared:
  assumes "r_showcases r = None \<or> r_showcases r = Some []"
  shows "reconcile_showcases E self ex k f r s = (Inr r, s)"
  using assms by (auto simp: reconcile_showcases_def)

lemma body_after_reconcile:
  assumes body: "normalize_and_convert_body E self ex k r agg s = (res, s')"
    and rec: "reconcile_showcases E self ex k (model_name_to_showcase_folder_name E k)
        (r\<lparr>r_baseline := convert_legacy_baseline (r_baseline r)\<rparr>)
        (create_showcase_folder (model_name_to_showcase_folder_name E k)
          (store_record k (r\<lparr>r_baseline := convert_legacy_baseline (r_baseline r)\<rparr>)
            (if r_type r \<noteq> ''ckpt''
             then add_validation_error_to_log self k (k @ '' is not a ckpt!'')
                    (generic_record_sanity_checks self k r s)
             else generic_record_sanity_checks self k r s))) = (Inr r2, s5)"
    and stored: "map_of (all_model_records s5) k = Some r2"
  shows "map_option r_showcases (map_of (all_model_records s') k) = Some (r_showcases r2)"
proof (cases "r_config r2")
  case None
  with body rec have "s' = s5"
    by (simp add: normalize_and_convert_body_def Let_def)
  with stored show ?thesis by simp
next
  case (Some cfg)
  define s6 where "s6 = (if length cfg = 0
       then add_validation_error_to_log self k (k @ '' has no config.'') s5 else s5)"
  obtain cr cfg' hosts s7 where chk:
    "normalize_and_convert_config_entries E k cfg s6 = ((cr, cfg', hosts), s7)"
    by (metis prod_cases3 surj_pair)
  from body rec Some chk have "s' = store_record k (r2\<lparr>r_config := Some cfg'\<rparr>) s7"
    by (auto simp: normalize_and_convert_body_def Let_def s6_def split: option.splits)
  then show ?thesis by simp
qed

section \<open>Checksum transfer\<close>




section \<open>A download without a matching file descriptor\<close>

text \<open>
  C2. For every legacy record containing a download descriptor whose file name is absent
  from the checksum lookup table built from its file descriptors, the failure is fatal
  for that record only: the record is excluded from the output set, its key appears in
  the validation failure log, and the traversal continues with the next record instead
  of aborting the run. The code does otherwise: evaluated on a database whose first
  record has such a download, the run raises \<^verbatim>\<open>KeyError\<close> with nothing logged, nothing
  stored of the second record and nothing written. The handler of line 121 does log and
  continue for the sibling failure, a descriptor that fails validation.
\<close>

theorem missing_checksum_aborts_run:
  "normalize_and_convert example_schema example_env example_converter
      [(''broken'', unmatched_record), (''demo'', example_record)] initial_state
     = (Inl (KeyError ''other.ckpt''), initial_state)
   \<and> fst (iterate_record example_schema example_converter ''broken'' invalid_record
            initial_state) = Inr None
   \<and> all_validation_errors_log (snd (iterate_record example_schema example_converter
            ''broken'' invalid_record initial_state))
       = [(''broken'', [''CRITICAL: Error parsing broken:'' @ [CHR 0x0A] @ ''path: field required''])]"
  by (simp add: example_defs run_defs)

section \<open>Showcase lists\<close>

text \<open>
  C3, as amended. For every record the iterator yields whose legacy input declared at
  least one showcase URL and whose showcase folder name is a key of the listing taken
  before the records are read, the showcase list stored for the record after the loop
  body is exactly the list of public URLs of the files listed for that folder (the base
  URL joined with \<^verbatim>\<open>showcase/<folder>/<percent-encoded file name>\<close>), in listing
  order, whatever URLs the input declared. A record that declared none (no list, or an
  empty list) keeps what it declared.
\<close>

theorem showcases_rebuilt_when_declared:
  assumes body: "normalize_and_convert_body E self existing_showcase_files key r agg s = (res, s')"
  shows "(\<forall>declared files.
            r_showcases r = Some declared \<and> declared \<noteq> []
            \<and> map_of existing_showcase_files (model_name_to_showcase_folder_name E key) = Some files
            \<longrightarrow> map_option r_showcases (map_of (all_model_records s') key)
                = Some (Some (map (expected_github_location E
                                     (model_name_to_showcase_folder_name E key)) files)))
       \<and> (r_showcases r = None \<or> r_showcases r = Some []
            \<longrightarrow> map_option r_showcases (map_of (all_model_records s') key)
                = Some (r_showcases r))"
proof (intro conjI allI impI)
  let ?f = "model_name_to_showcase_folder_name E key"
  let ?r1 = "r\<lparr>r_baseline := convert_legacy_baseline (r_baseline r)\<rparr>"
  let ?s4 = "create_showcase_folder ?f
          (store_record key ?r1
            (if r_type r \<noteq> ''ckpt''
             then add_validation_error_to_log self key (key @ '' is not a ckpt!'')
                    (generic_record_sanity_checks self key r s)
             else generic_record_sanity_checks self key r s))"
  {
    fix declared files
    assume a: "r_showcases r = Some declared \<and> declared \<noteq> []
            \<and> map_of existing_showcase_files ?f = Some files"
    then have "r_showcases ?r1 = Some declared" by simp
    from reconcile_declared [OF this, of existing_showcase_files ?f files E self key ?s4] a
    obtain s5 where rec: "reconcile_showcases E self existing_showcase_files key ?f ?r1 ?s4
            = (Inr (?r1\<lparr>r_showcases := Some (map (expected_github_location E ?f) files)\<rparr>), s5)"
      and st: "map_of (all_model_records s5) key
            = Some (?r1\<lparr>r_showcases := Some (map (expected_github_location E ?f) files)\<rparr>)"
      by blast
    from body_after_reconcile [OF body rec st]
    show "map_option r_showcases (map_of (all_model_records s') key)
                = Some (Some (map (expected_github_location E ?f) files))"
      by simp
  }
  {
    assume "r_showcases r = None \<or> r_showcases r = Some []"
    then have "r_showcases ?r1 = None \<or> r_showcases ?r1 = Some []" by simp
    from reconcile_undeclared [OF this]
    have rec: "reconcile_showcases E self existing_showcase_files key ?f ?r1 ?s4 = (Inr ?r1, ?s4)" .
    have st: "map_of (all_model_records ?s4) key = Some ?r1" by simp
    from body_after_reconcile [OF body rec st]
    show "map_option r_showcases (map_of (all_model_records s') key) = Some (r_showcases r)"
      by simp
  }
qed


theorem showcases_rebuilt_when_declared_witness:
  "map_option r_showcases (map_of (all_model_records (snd (normalize_and_convert_body
       example_env example_converter [(''demo'', [''01.webp''])] ''demo'' example_yielded
       empty_aggregates initial_state))) ''demo'')
     = Some (Some [''https://example.org/main/showcase/demo/01.webp''])
   \<and> map_option r_showcases (map_of (all_model_records (snd (normalize_and_convert_body
       example_env example_converter [(''demo'', [''01.webp''])] ''demo''
       (example_yielded\<lparr>r_showcases := None\<rparr>) empty_aggregates initial_state))) ''demo'')
     = Some None"
proof -
  let ?ex = "[(''demo'', [''01.webp''])]"
  let ?declared = "normalize_and_convert_body example_env example_converter ?ex ''demo''
      example_yielded empty_aggregates initial_state"
  let ?undeclared = "normalize_and_convert_body example_env example_converter ?ex ''demo''
      (example_yielded\<lparr>r_showcases := None\<rparr>) empty_aggregates initial_state"
  have d: "?declared = (fst ?declared, snd ?declared)"
    and u: "?undeclared = (fst ?undeclared, snd ?undeclared)" by simp_all
  have folder: "model_name_to_showcase_folder_name example_env ''demo'' = ''demo''"
    by (simp add: example_env_def)
  have listed: "map_of ?ex (model_name_to_showcase_folder_name example_env ''demo'')
      = Some [''01.webp'']"
    by (simp add: example_env_def)
  have decl: "r_showcases example_yielded = Some [''https://huggingface.co/old.png'']"
    by (simp add: example_yielded_def)
  have url: "map (expected_github_location example_env ''demo'') [''01.webp'']
      = [''https://example.org/main/showcase/demo/01.webp'']"
    by (simp add: expected_github_location_def example_env_def)
  from showcases_rebuilt_when_declared [OF d] decl listed
  have "map_option r_showcases (map_of (all_model_records (snd ?declared)) ''demo'')
      = Some (Some (map (expected_github_location example_env
            (model_name_to_showcase_folder_name example_env ''demo'')) [''01.webp'']))"
    by blast
  with folder url have 1: "map_option r_showcases (map_of (all_model_records (snd ?declared)) ''demo'')
      = Some (Some [''https://example.org/main/showcase/demo/01.webp''])"
    by simp
  have "r_showcases (example_yielded\<lparr>r_showcases := None\<rparr>) = None" by simp
  with showcases_rebuilt_when_declared [OF u]
  have 2: "map_option r_showcases (map_of (all_model_records (snd ?undeclared)) ''demo'')
      = Some None"
    by simp
  from 1 2 show ?thesis by blast
qed

text \<open>
  The claim as first stated also covers a record that declares no showcase: with one file
  in the folder \<open>demo\<close> on disk and an empty declared list, the run succeeds and the stored
  list is still empty, not the URL of that file.
\<close>

theorem showcases_always_rebuilt_counterexample:
  "fst (normalize_and_convert example_schema example_env example_converter
          [(''demo'', undeclared_record)] initial_state) = Inr True
   \<and> map_of (get_existing_showcases example_env (glob_showcase_initial example_env) [])
        (model_name_to_showcase_folder_name example_env ''demo'') = Some [''01.webp'']
   \<and> map (expected_github_location example_env ''demo'') [''01.webp'']
        = [''https://example.org/main/showcase/demo/01.webp'']
   \<and> map_option r_showcases (map_of (all_model_records (snd (normalize_and_convert
          example_schema example_env example_converter [(''demo'', undeclared_record)]
          initial_state))) ''demo'') = Some (Some [])"
  by (simp add: example_defs run_defs)

section \<open>The output file\<close>

text \<open>
  C4. If the serialized output fails re-parsing under the strict target schema, the run
  aborts, surfaces the validation error, and writes no output file; the output file is
  written (once, in full) only after this final validation succeeds. Stated for every
  run: a run that raises leaves the output file alone; a run that returns, returns
  \<^verbatim>\<open>True\<close> after exactly one write, of a document the target schema accepts; and a
  run whose record stream completes with a document the schema rejects raises that
  validation error.
\<close>

theorem final_validation_gates_write:
  assumes run: "normalize_and_convert sch E self raw_legacy_json_data s = (res, s')"
  shows "(case res of
            Inl e \<Rightarrow> written s' = written s
          | Inr ok \<Rightarrow> ok \<and> (\<exists>agg.
              target_schema_error sch (reference_json E (build_model_reference agg s')) = None
              \<and> written s' = written s @ [reference_json E (build_model_reference agg s')]))
       \<and> (\<forall>agg s1 msg.
            stream_records sch E self (get_existing_showcases E (glob_showcase_initial E) [])
               raw_legacy_json_data empty_aggregates s = (Inr agg, s1)
            \<and> target_schema_error sch (reference_json E (build_model_reference agg s')) = Some msg
            \<longrightarrow> res = Inl (ValidationError msg) \<and> written s' = written s)"
proof -
  let ?ex = "get_existing_showcases E (glob_showcase_initial E) []"
  obtain r1 s1 where st: "stream_records sch E self ?ex raw_legacy_json_data empty_aggregates s = (r1, s1)"
    by (cases "stream_records sch E self ?ex raw_legacy_json_data empty_aggregates s")
  have w1: "written s1 = written s" using st by (rule written_stream_records_eq)
  show ?thesis
  proof (cases r1)
    case (Inl e)
    with run st w1 show ?thesis by (auto simp: normalize_and_convert_def)
  next
    case (Inr agg)
    with run st have fin: "finish_run sch E self agg s1 = (res, s')"
      by (simp add: normalize_and_convert_def)
    from finish_run_cases [OF fin] w1 st Inr show ?thesis by auto
  qed
qed


theorem final_validation_gates_write_witness:
  "fst (normalize_and_convert rejecting_schema example_env example_converter
          [(''demo'', example_record)] initial_state) = Inl (ValidationError ''models: invalid'')
   \<and> written (snd (normalize_and_convert rejecting_schema example_env example_converter
          [(''demo'', example_record)] initial_state)) = []
   \<and> fst (normalize_and_convert example_schema example_env example_converter
          [(''demo'', example_record)] initial_state) = Inr True
   \<and> written (snd (normalize_and_convert example_schema example_env example_converter
          [(''demo'', example_record)] initial_state)) = [''demo'']"
proof -
  let ?db = "[(''demo'', example_record)]"
  let ?bad = "normalize_and_convert rejecting_schema example_env example_converter ?db initial_state"
  let ?good = "normalize_and_convert example_schema example_env example_converter ?db initial_state"
  have bad: "?bad = (fst ?bad, snd ?bad)" and good: "?good = (fst ?good, snd ?good)"
    by simp_all
  have streamed: "\<exists>agg s1. stream_records rejecting_schema example_env example_converter
      (get_existing_showcases example_env (glob_showcase_initial example_env) []) ?db
      empty_aggregates initial_state = (Inr agg, s1)"
    by (simp add: example_defs run_defs)
  have rejected: "\<And>json. target_schema_error rejecting_schema json = Some ''models: invalid''"
    by (simp add: example_defs)
  from final_validation_gates_write [OF bad] streamed rejected
  have 1: "fst ?bad = Inl (ValidationError ''models: invalid'')"
    and 2: "written (snd ?bad) = written initial_state"
    by blast+
  have 3: "fst ?good = Inr True"
    by (simp add: example_defs run_defs)
  have 4: "all_model_records (snd ?good) \<noteq> [] \<and> map fst (all_model_records (snd ?good)) = [''demo'']"
    by (simp add: example_defs run_defs)
  from final_validation_gates_write [OF good] 3
  obtain agg where "written (snd ?good) = written initial_state
      @ [reference_json example_env (build_model_reference agg (snd ?good))]"
    by auto
  with 4 have 5: "written (snd ?good) = [''demo'']"
    by (simp add: example_defs build_model_reference_def)
  from 1 2 3 5 show ?thesis by (simp add: initial_state_def)
qed

section \<open>Baseline normalization\<close>

text \<open>
  C5. Baseline normalization maps exactly the three legacy strings
  "stable diffusion 1", "stable diffusion 2" and "stable diffusion 2 512" to
  "stable_diffusion_1", "stable_diffusion_2_768" and "stable_diffusion_2_512"; every other
  string is returned unchanged; applying the function twice equals applying it once.
\<close>

theorem convert_legacy_baseline_table:
  "convert_legacy_baseline ''stable diffusion 1'' = ''stable_diffusion_1''
   \<and> convert_legacy_baseline ''stable diffusion 2'' = ''stable_diffusion_2_768''
   \<and> convert_legacy_baseline ''stable diffusion 2 512'' = ''stable_diffusion_2_512''
   \<and> (b \<notin> {''stable diffusion 1'', ''stable diffusion 2'', ''stable diffusion 2 512''}
        \<longrightarrow> convert_legacy_baseline b = b)
   \<and> (convert_legacy_baseline b \<noteq> b
        \<longrightarrow> b \<in> {''stable diffusion 1'', ''stable diffusion 2'', ''stable diffusion 2 512''})
   \<and> convert_legacy_baseline (convert_legacy_baseline b) = convert_legacy_baseline b"
  by (simp add: convert_legacy_baseline_def)

theorem convert_legacy_baseline_table_witness:
  "''sdxl'' \<notin> {''stable diffusion 1'', ''stable diffusion 2'', ''stable diffusion 2 512''}
   \<and> convert_legacy_baseline ''sdxl'' = ''sdxl''
   \<and> convert_legacy_baseline ''stable diffusion 2'' \<noteq> ''stable diffusion 2''
   \<and> ''stable diffusion 2'' \<in> {''stable diffusion 1'', ''stable diffusion 2'', ''stable diffusion 2 512''}"
proof -
  have a: "''sdxl'' \<notin> {''stable diffusion 1'', ''stable diffusion 2'', ''stable diffusion 2 512''}"
    by simp
  have b: "convert_legacy_baseline ''stable diffusion 2'' \<noteq> ''stable diffusion 2''"
    by (simp add: convert_legacy_baseline_def)
  from convert_legacy_baseline_table [of "''sdxl''"] a
  have c: "convert_legacy_baseline ''sdxl'' = ''sdxl''" by blast
  from convert_legacy_baseline_table [of "''stable diffusion 2''"] b
  have d: "''stable diffusion 2'' \<in> {''stable diffusion 1'', ''stable diffusion 2'', ''stable diffusion 2 512''}"
    by blast
  from a b c d show ?thesis by blast
qed

section \<open>YAML file descriptors\<close>

text \<open>
  C6. For every file descriptor whose path contains a YAML extension, normalization
  skips it entirely: it contributes no entry to the path-to-checksum lookup table and
  does not appear in the normalized record's config output. The file loop runs as if
  the descriptor were not in the list, the table of a normalized config has no entry
  under its path, and the config of a yielded record holds download descriptors only.
\<close>

theorem yaml_descriptors_skipped:
  assumes "parse_file_record sch j = Inr f" and "f_path f = Some p"
    and "str_contains ''.yaml'' p"
  shows "iterate_files sch (pre @ j # post) L = iterate_files sch (pre @ post) L
       \<and> (\<forall>cfg L'. iterate_config sch cfg empty_locals = Inr L'
             \<longrightarrow> map_of (sha_lookup L') p = None)
       \<and> (\<forall>self key contents s r.
             fst (iterate_record sch self key contents s) = Inr (Some r)
             \<longrightarrow> (\<exists>ds. r_config r = Some [(''download'', map DownloadItem ds)]))"
proof (intro conjI allI impI)
  show "iterate_files sch (pre @ j # post) L = iterate_files sch (pre @ post) L"
    using assms by (induction pre arbitrary: L) (simp_all split: sum.splits option.splits)
next
  fix cfg L' assume "iterate_config sch cfg empty_locals = Inr L'"
  from iterate_config_inv [OF this subset_refl table_from_empty]
  have "table_from sch (set (config_files cfg)) L'" by simp
  with assms(3) show "map_of (sha_lookup L') p = None"
    unfolding table_from_def by (cases "map_of (sha_lookup L') p") auto
next
  fix self key contents s r
  assume "fst (iterate_record sch self key contents s) = Inr (Some r)"
  then show "\<exists>ds. r_config r = Some [(''download'', map DownloadItem ds)]"
    by (rule iterate_record_yields) blast
qed

theorem yaml_descriptors_skipped_witness:
  "iterate_files example_schema [Inl example_yaml_file, Inl example_file] empty_locals
     = iterate_files example_schema [Inl example_file] empty_locals
   \<and> (\<exists>L'. iterate_config example_schema
               [(''files'', [Inl example_yaml_file, Inl example_file]),
                (''download'', [Inr example_download])] empty_locals = Inr L'
            \<and> map_of (sha_lookup L') ''v1-inference.yaml'' = None
            \<and> map_of (sha_lookup L') ''model.ckpt'' = Some (Some ''abc''))
   \<and> (\<exists>r ds. fst (iterate_record example_schema example_converter ''demo'' example_record
                     initial_state) = Inr (Some r)
            \<and> r_config r = Some [(''download'', map DownloadItem ds)])"
proof -
  have parsed: "parse_file_record example_schema (Inl example_yaml_file) = Inr example_yaml_file"
    and path: "f_path example_yaml_file = Some ''v1-inference.yaml''"
    and yaml: "str_contains ''.yaml'' ''v1-inference.yaml''"
    by (simp_all add: example_defs)
  note skipped = yaml_descriptors_skipped [OF parsed path yaml, of "[]" "[Inl example_file]"
      empty_locals, unfolded append_Nil]
  from skipped have same: "iterate_files example_schema [Inl example_yaml_file, Inl example_file]
      empty_locals = iterate_files example_schema [Inl example_file] empty_locals"
    by (rule conjunct1)
  obtain L' where L': "iterate_config example_schema
               [(''files'', [Inl example_yaml_file, Inl example_file]),
                (''download'', [Inr example_download])] empty_locals = Inr L'"
    and ckpt: "map_of (sha_lookup L') ''model.ckpt'' = Some (Some ''abc'')"
    by (simp add: example_defs run_defs)
  obtain r where r: "fst (iterate_record example_schema example_converter ''demo''
      example_record initial_state) = Inr (Some r)"
    by (simp add: example_defs run_defs)
  from skipped L' have "map_of (sha_lookup L') ''v1-inference.yaml'' = None" by blast
  moreover from skipped r obtain ds where "r_config r = Some [(''download'', map DownloadItem ds)]"
    by blast
  ultimately show ?thesis using same L' ckpt r by blast
qed

section \<open>Findings of the config checker\<close>

text \<open>
  C7. Every per-config-entry advisory finding is recorded in the validation findings log
  under the offending record's key, like every other advisory finding. The code does
  otherwise: the checker leaves the findings log as it found it, on every input; on a
  download with a file path and no URL it prints two findings and logs none.
\<close>

theorem config_findings_not_logged:
  "all_validation_errors_log (snd (normalize_and_convert_config_entries E k entries s))
     = all_validation_errors_log s
   \<and> normalize_and_convert_config_entries example_env ''demo''
       [(''download'', [DownloadItem (example_download\<lparr>d_file_url := Some [],
                                         d_file_path := Some ''models''\<rparr>)])]
       initial_state
     = ((None, [(''download'', [DownloadItem (example_download\<lparr>d_file_url := Some [],
                                         d_file_path := Some ''models''\<rparr>)])], []),
        initial_state\<lparr>stdout := [''demo has a download with a file_path.'',
                                  ''demo has a download with no file_url.'']\<rparr>)"
proof
  show "all_validation_errors_log (snd (normalize_and_convert_config_entries E k entries s))
     = all_validation_errors_log s"
    using checker_keeps_log [of E k entries s] by (metis prod.collapse)
next
  show "normalize_and_convert_config_entries example_env ''demo''
       [(''download'', [DownloadItem (example_download\<lparr>d_file_url := Some [],
                                         d_file_path := Some ''models''\<rparr>)])]
       initial_state
     = ((None, [(''download'', [DownloadItem (example_download\<lparr>d_file_url := Some [],
                                         d_file_path := Some ''models''\<rparr>)])], []),
        initial_state\<lparr>stdout := [''demo has a download with a file_path.'',
                                  ''demo has a download with no file_url.'']\<rparr>)"
    by (simp add: example_defs run_defs)
qed

section \<open>Records and findings across converters\<close>

text \<open>
  C8. The output record mapping and the validation findings log are state scoped to a
  single orchestrator run: a freshly constructed converter starts with an empty record
  mapping and empty findings log, and two converter instances never observe each
  other's accumulated records or findings. The code does otherwise: constructing a
  converter leaves both dictionaries as they are, so a converter constructed after a run
  of another one starts with that run's record and finding.
\<close>

theorem records_and_log_shared_between_converters:
  "snd (LegacyConverterBase_init target dbg prt s) = s
   \<and> map fst (all_model_records (snd (LegacyConverterBase_init ''out/controlnet.json'' False True
        (snd (normalize_and_convert example_schema example_env
               (fst (LegacyConverterBase_init ''out/stable_diffusion.json'' False True initial_state))
               [(''demo'', example_record)]
               (snd (LegacyConverterBase_init ''out/stable_diffusion.json'' False True
                       initial_state))))))) = [''demo'']
   \<and> all_validation_errors_log (snd (LegacyConverterBase_init ''out/controlnet.json'' False True
        (snd (normalize_and_convert example_schema example_env
               (fst (LegacyConverterBase_init ''out/stable_diffusion.json'' False True initial_state))
               [(''demo'', example_record)]
               (snd (LegacyConverterBase_init ''out/stable_diffusion.json'' False True
                       initial_state))))))
       = [(''demo'', [''demo has a huggingface showcase.''])]"
  by (simp add: LegacyConverterBase_init_def example_defs run_defs)

section \<open>Download URLs\<close>

text \<open>
  C9. During config-entry checking, a download descriptor with an empty or missing URL
  is skipped for host extraction only (the record and the run continue), whereas a
  download URL whose destination host cannot be parsed aborts the entire run with no
  output file produced. First part: the exception and the host table the download loop
  hands back are those of the list without the descriptor. Second part: for a yielded
  record none of whose download URLs makes the parser raise (a missing or empty URL
  never does) and whose showcase step does not raise, the loop body returns, counts
  exactly the hosts of that table, and the traversal goes on with the next record.
  Third part: when a record of the database is yielded with a download descriptor whose
  non-empty URL the parser rejects, the run raises and the output file is left alone.
\<close>

theorem unparsable_url_aborts_run:
  "(d_file_url d = None \<or> d_file_url d = Some []
      \<longrightarrow> download_outcome E k (pre @ DownloadItem d # post) h s
            = download_outcome E k (pre @ post) h s)
   \<and> (\<forall>key contents s r ds ex agg rest.
        fst (iterate_record sch self key contents s) = Inr (Some r)
        \<and> r_config r = Some [(''download'', map DownloadItem ds)]
        \<and> (\<forall>d\<in>set ds. url_does_not_raise E d)
        \<and> (r_showcases r = None \<or> r_showcases r = Some []
            \<or> map_of ex (model_name_to_showcase_folder_name E key) \<noteq> None)
      \<longrightarrow> (\<exists>agg' s2.
             normalize_and_convert_body E self ex key r agg
                 (snd (iterate_record sch self key contents s)) = (Inr agg', s2)
             \<and> all_model_hosts agg'
                = fold count_up
                    (map fst (snd (download_outcome E key (map DownloadItem ds) [] s)))
                    (all_model_hosts agg)
             \<and> stream_records sch E self ex ((key, contents) # rest) agg s
                = stream_records sch E self ex rest agg' s2))
   \<and> ((key, contents) \<in> set db
        \<and> fst (iterate_record sch self key contents s0) = Inr (Some r)
        \<and> r_config r = Some [(''download'', items)]
        \<and> DownloadItem d' \<in> set items \<and> d_file_url d' = Some u \<and> u \<noteq> []
        \<and> urlparse_netloc E u = Inl e
      \<longrightarrow> (\<exists>e'. fst (normalize_and_convert sch E self db s) = Inl e')
          \<and> written (snd (normalize_and_convert sch E self db s)) = written s)"
proof (intro conjI allI impI)
  assume "d_file_url d = None \<or> d_file_url d = Some []"
  then show "download_outcome E k (pre @ DownloadItem d # post) h s
            = download_outcome E k (pre @ post) h s"
    by (rule download_outcome_skip)
next
  fix key contents s r ds agg rest and ex :: "(string \<times> string list) list"
  assume a: "fst (iterate_record sch self key contents s) = Inr (Some r)
        \<and> r_config r = Some [(''download'', map DownloadItem ds)]
        \<and> (\<forall>d\<in>set ds. url_does_not_raise E d)
        \<and> (r_showcases r = None \<or> r_showcases r = Some []
            \<or> map_of ex (model_name_to_showcase_folder_name E key) \<noteq> None)"
  define s1 where "s1 = snd (iterate_record sch self key contents s)"
  from a have it: "iterate_record sch self key contents s = (Inr (Some r), s1)"
    unfolding s1_def by (metis prod.collapse)
  from a body_continues [where r = r and ds = ds and E = E and ex = ex and k = key
      and self = self and agg = agg and s = s1 and ?s0.0 = s]
  obtain agg' s2 where b: "normalize_and_convert_body E self ex key r agg s1 = (Inr agg', s2)"
    and hosts: "all_model_hosts agg'
        = fold count_up (map fst (snd (download_outcome E key (map DownloadItem ds) [] s)))
            (all_model_hosts agg)"
    by blast
  have "stream_records sch E self ex ((key, contents) # rest) agg s
      = stream_records sch E self ex rest agg' s2"
    by (simp add: it b)
  with b hosts show "\<exists>agg' s2.
             normalize_and_convert_body E self ex key r agg
                 (snd (iterate_record sch self key contents s)) = (Inr agg', s2)
             \<and> all_model_hosts agg'
                = fold count_up
                    (map fst (snd (download_outcome E key (map DownloadItem ds) [] s)))
                    (all_model_hosts agg)
             \<and> stream_records sch E self ex ((key, contents) # rest) agg s
                = stream_records sch E self ex rest agg' s2"
    unfolding s1_def by blast
next
  assume a: "(key, contents) \<in> set db
        \<and> fst (iterate_record sch self key contents s0) = Inr (Some r)
        \<and> r_config r = Some [(''download'', items)]
        \<and> DownloadItem d' \<in> set items \<and> d_file_url d' = Some u \<and> u \<noteq> []
        \<and> urlparse_netloc E u = Inl e"
  let ?ex = "get_existing_showcases E (glob_showcase_initial E) []"
  obtain sr s1 where st: "stream_records sch E self ?ex db empty_aggregates s = (sr, s1)"
    by (cases "stream_records sch E self ?ex db empty_aggregates s")
  from a stream_records_raises [of key contents db sch self s0 r items d' u E e ?ex
      empty_aggregates s] st
  obtain e' where e': "sr = Inl e'" by auto
  have w: "written s1 = written s" using st by (rule written_stream_records_eq)
  from st e' have run: "normalize_and_convert sch E self db s = (Inl e', s1)"
    by (simp add: normalize_and_convert_def)
  from run show "\<exists>e'. fst (normalize_and_convert sch E self db s) = Inl e'" by simp
  from run w show "written (snd (normalize_and_convert sch E self db s)) = written s" by simp
qed


theorem unparsable_url_aborts_run_witness:
  "download_outcome example_env ''demo''
      [DownloadItem (example_download\<lparr>d_file_url := Some []\<rparr>), DownloadItem example_download]
      [] initial_state
     = (None, [(''civitai.com'', 1)])
   \<and> (\<exists>agg'. fst (stream_records example_schema example_env example_converter
                    [(''demo'', [''01.webp''])] [(''demo'', empty_url_record)]
                    empty_aggregates initial_state) = Inr agg'
              \<and> all_model_hosts agg' = [(''civitai.com'', 1)])
   \<and> fst (normalize_and_convert example_schema example_env example_converter
            [(''demo'', empty_url_record)] initial_state) = Inr True
   \<and> (\<exists>e'. fst (normalize_and_convert example_schema example_env example_converter
                  [(''demo'', bad_url_record)] initial_state) = Inl e')
   \<and> written (snd (normalize_and_convert example_schema example_env example_converter
                  [(''demo'', bad_url_record)] initial_state)) = []"
proof -
  let ?skipped = "example_download\<lparr>d_file_url := Some []\<rparr>"
  let ?ds = "[?skipped\<lparr>d_sha256sum := Some ''abc''\<rparr>, example_download\<lparr>d_sha256sum := Some ''abc''\<rparr>]"
  let ?rc = "example_yielded\<lparr>r_config := Some [(''download'', map DownloadItem ?ds)]\<rparr>"
  let ?r = "example_yielded\<lparr>r_config := Some [(''download'',
           [DownloadItem (bad_url_download\<lparr>d_sha256sum := Some ''abc''\<rparr>)])]\<rparr>"
  let ?ex = "[(''demo'', [''01.webp''])]"
  note T = unparsable_url_aborts_run [where d = ?skipped and E = example_env and k = "''demo''"
      and pre = "[]" and post = "[DownloadItem example_download]" and h = "[]"
      and s = initial_state and key = "''demo''" and contents = bad_url_record
      and db = "[(''demo'', bad_url_record)]" and sch = example_schema
      and self = example_converter and ?s0.0 = initial_state and r = ?r
      and items = "[DownloadItem (bad_url_download\<lparr>d_sha256sum := Some ''abc''\<rparr>)]"
      and d' = "bad_url_download\<lparr>d_sha256sum := Some ''abc''\<rparr>"
      and u = "''http://[::1''" and e = "ValueError ''Invalid IPv6 URL''"]
  have empty: "d_file_url ?skipped = None \<or> d_file_url ?skipped = Some []" by simp
  have without: "download_outcome example_env ''demo'' [DownloadItem example_download] []
      initial_state = (None, [(''civitai.com'', 1)])"
    by (simp add: download_outcome_def example_defs run_defs)
  from T empty without have 1: "download_outcome example_env ''demo''
      [DownloadItem ?skipped, DownloadItem example_download] [] initial_state
     = (None, [(''civitai.com'', 1)])"
    by simp
  have yielded_c: "fst (iterate_record example_schema example_converter ''demo'' empty_url_record
      initial_state) = Inr (Some ?rc)"
    by (simp add: example_defs run_defs)
  have config_c: "r_config ?rc = Some [(''download'', map DownloadItem ?ds)]" by simp
  have urls: "\<forall>d\<in>set ?ds. url_does_not_raise example_env d"
    by (simp add: url_does_not_raise_def example_defs)
  have listed: "r_showcases ?rc = None \<or> r_showcases ?rc = Some []
      \<or> map_of ?ex (model_name_to_showcase_folder_name example_env ''demo'') \<noteq> None"
    by (simp add: example_env_def)
  from T yielded_c config_c urls listed
  obtain agg' s2 where body: "normalize_and_convert_body example_env example_converter ?ex
        ''demo'' ?rc empty_aggregates
        (snd (iterate_record example_schema example_converter ''demo'' empty_url_record
           initial_state)) = (Inr agg', s2)"
    and hosts: "all_model_hosts agg' = fold count_up
        (map fst (snd (download_outcome example_env ''demo'' (map DownloadItem ?ds) []
           initial_state))) (all_model_hosts empty_aggregates)"
    and continues: "stream_records example_schema example_env example_converter ?ex
        ((''demo'', empty_url_record) # []) empty_aggregates initial_state
      = stream_records example_schema example_env example_converter ?ex [] agg' s2"
    by blast
  have "fold count_up
        (map fst (snd (download_outcome example_env ''demo'' (map DownloadItem ?ds) []
           initial_state))) (all_model_hosts empty_aggregates) = [(''civitai.com'', 1)]"
    by (simp add: download_outcome_def example_defs run_defs)
  with hosts continues have 2: "\<exists>agg'. fst (stream_records example_schema example_env
        example_converter ?ex [(''demo'', empty_url_record)] empty_aggregates initial_state)
        = Inr agg' \<and> all_model_hosts agg' = [(''civitai.com'', 1)]"
    by simp
  have 3: "fst (normalize_and_convert example_schema example_env example_converter
            [(''demo'', empty_url_record)] initial_state) = Inr True"
    by (simp add: example_defs run_defs)
  have yielded: "fst (iterate_record example_schema example_converter ''demo'' bad_url_record
      initial_state) = Inr (Some ?r)"
    by (simp add: example_defs run_defs)
  have url: "d_file_url (bad_url_download\<lparr>d_sha256sum := Some ''abc''\<rparr>) = Some ''http://[::1''"
    by (simp add: bad_url_download_def)
  have rejected: "urlparse_netloc example_env ''http://[::1'' = Inl (ValueError ''Invalid IPv6 URL'')"
    by (simp add: example_env_def example_netloc_def)
  from T yielded url rejected
  have 4: "\<exists>e'. fst (normalize_and_convert example_schema example_env example_converter
                  [(''demo'', bad_url_record)] initial_state) = Inl e'"
    and 5: "written (snd (normalize_and_convert example_schema example_env example_converter
                  [(''demo'', bad_url_record)] initial_state)) = written initial_state"
    by simp_all
  from 1 2 3 4 5 show ?thesis by (simp add: initial_state_def)
qed

section \<open>The config of a yielded record\<close>

text \<open>
  C10. Every record yielded by the input-record iterator has a config mapping containing
  exactly the single key "download"; consequently, when the orchestrator later passes
  that config to the config-entry checker, the "files" branch, including all
  file-descriptor checks and both TypeError raises, is unreachable for every
  pipeline-processed record. On such a config the checker returns a config of the same
  shape, prints none of the findings of the "files" branch nor the line that precedes
  either \<^verbatim>\<open>TypeError\<close>, and raises only what the URL parser raised on a non-empty URL
  of one of the descriptors.
\<close>

theorem files_branch_unreachable:
  assumes "fst (iterate_record sch self key contents s) = Inr (Some r)"
  shows "\<exists>ds. r_config r = Some [(''download'', map DownloadItem ds)]
     \<and> (\<forall>E k s0. \<exists>res ds' hosts s1 out.
           normalize_and_convert_config_entries E k [(''download'', map DownloadItem ds)] s0
             = ((res, [(''download'', map DownloadItem ds')], hosts), s1)
           \<and> stdout s1 = stdout s0 @ out \<and> set out \<inter> guarded_findings k = {}
           \<and> (case res of None \<Rightarrow> True
               | Some e \<Rightarrow> \<exists>d\<in>set ds. \<exists>u. d_file_url d = Some u \<and> u \<noteq> []
                             \<and> urlparse_netloc E u = Inl e))"
proof -
  from assms obtain ds where ds: "r_config r = Some [(''download'', map DownloadItem ds)]"
    by (rule iterate_record_yields) blast
  have "\<exists>res ds' hosts s1 out.
           normalize_and_convert_config_entries E k [(''download'', map DownloadItem ds)] s0
             = ((res, [(''download'', map DownloadItem ds')], hosts), s1)
           \<and> stdout s1 = stdout s0 @ out \<and> set out \<inter> guarded_findings k = {}
           \<and> (case res of None \<Rightarrow> True
               | Some e \<Rightarrow> \<exists>d\<in>set ds. \<exists>u. d_file_url d = Some u \<and> u \<noteq> []
                             \<and> urlparse_netloc E u = Inl e)" for E k s0
  proof -
    obtain res items' h' s1 where cd:
      "check_downloads E k (map DownloadItem ds) [] s0 = ((res, items', h'), s1)"
      by (metis prod_cases3 surj_pair)
    from check_downloads_typed [OF cd] obtain ds' out where
      t: "items' = map DownloadItem ds'" "stdout s1 = stdout s0 @ out"
         "set out \<subseteq> download_findings k"
      and ex: "case res of None \<Rightarrow> True
          | Some e \<Rightarrow> \<exists>d\<in>set ds. \<exists>u. d_file_url d = Some u \<and> u \<noteq> []
                        \<and> urlparse_netloc E u = Inl e"
      by blast
    have "normalize_and_convert_config_entries E k [(''download'', map DownloadItem ds)] s0
             = ((res, [(''download'', map DownloadItem ds')], h'), s1)"
      using cd t(1) by (cases res) (simp_all add: normalize_and_convert_config_entries_def)
    moreover have "set out \<inter> guarded_findings k = {}"
      using t(3) findings_disjoint [of k] by blast
    ultimately show ?thesis using t(2) ex by blast
  qed
  with ds show ?thesis by blast
qed

theorem files_branch_unreachable_witness:
  "\<exists>r ds. fst (iterate_record example_schema example_converter ''demo'' example_record
              initial_state) = Inr (Some r)
     \<and> r_config r = Some [(''download'', map DownloadItem ds)] \<and> ds \<noteq> []
     \<and> (\<exists>res ds' hosts s1 out.
           normalize_and_convert_config_entries example_env ''demo''
               [(''download'', map DownloadItem ds)] initial_state
             = ((res, [(''download'', map DownloadItem ds')], hosts), s1)
           \<and> stdout s1 = stdout initial_state @ out
           \<and> set out \<inter> guarded_findings ''demo'' = {})"
proof -
  let ?r = "\<lparr>r_name = ''demo'', r_type = ''ckpt'', r_baseline = ''stable diffusion 1'',
         r_style = ''generalist'', r_description = Some ''a model'', r_available = False,
         r_download_all = False, r_showcases = Some [''https://huggingface.co/old.png''],
         r_tags = Some [''anime''],
         r_config = Some [(''download'',
           [DownloadItem (example_download\<lparr>d_sha256sum := Some ''abc''\<rparr>)])]\<rparr>"
  have yielded: "fst (iterate_record example_schema example_converter ''demo'' example_record
      initial_state) = Inr (Some ?r)"
    by (simp add: example_defs run_defs)
  from files_branch_unreachable [OF yielded]
  obtain ds where ds: "r_config ?r = Some [(''download'', map DownloadItem ds)]"
    and chk: "\<forall>E k s0. \<exists>res ds' hosts s1 out.
           normalize_and_convert_config_entries E k [(''download'', map DownloadItem ds)] s0
             = ((res, [(''download'', map DownloadItem ds')], hosts), s1)
           \<and> stdout s1 = stdout s0 @ out \<and> set out \<inter> guarded_findings k = {}
           \<and> (case res of None \<Rightarrow> True
               | Some e \<Rightarrow> \<exists>d\<in>set ds. \<exists>u. d_file_url d = Some u \<and> u \<noteq> []
                             \<and> urlparse_netloc E u = Inl e)"
    by blast
  from ds have ne: "ds \<noteq> []" by auto
  from chk obtain res ds' hosts s1 out where
    "normalize_and_convert_config_entries example_env ''demo''
        [(''download'', map DownloadItem ds)] initial_state
       = ((res, [(''download'', map DownloadItem ds')], hosts), s1)"
    "stdout s1 = stdout initial_state @ out" "set out \<inter> guarded_findings ''demo'' = {}"
    by blast
  with yielded ds ne show ?thesis by blast
qed

end
